theory Spec2Isabelle
  imports Complex_Main "HOL-Library.Multiset" "HOL-Library.Monad_Syntax" "HOL-Library.Log_Nat"
begin

section \<open>Expense tracker backend: routes over a relational store\<close>

text \<open>
  The backend maps each HTTP route to a few parameterised SQL statements. The model
  keeps the three tables as lists of rows, every route handler as a function from the
  store and the request to a response and the new store, and every early
  \<^verbatim>\<open>return res.status(..)\<close> as a branch of that function.

  Route parameters and query parameters reach a handler as strings. Two different
  readings of such a string as a number occur in the code: JavaScript's (in
  \<^verbatim>\<open>month < 1\<close> and \<^verbatim>\<open>parseInt\<close>) and MySQL's (a string bound to a
  placeholder that is compared with a numeric column). Both are written out below.
  A JavaScript number is an IEEE 754 double: it is kept as the rational it denotes, and
  whatever produces one rounds to the nearest double (\<open>round64\<close>). What MySQL
  computes on \<^verbatim>\<open>DECIMAL\<close>, integer and date columns is exact.
\<close>

subsection \<open>Reading strings as numbers\<close>

definition is_digit :: "char \<Rightarrow> bool" where
  "is_digit c = (c \<in> set ''0123456789'')"

definition digit_val :: "char \<Rightarrow> nat" where
  "digit_val c = of_char c - 48"

definition digits_val :: "string \<Rightarrow> nat" where
  "digits_val ds = foldl (\<lambda>a c. 10 * a + digit_val c) 0 ds"

text \<open>
  The white space both readings skip: space, tab, line feed, vertical tab, form feed,
  carriage return. (JavaScript also skips the white space characters outside ASCII;
  strings are taken to be free of them.)
\<close>

definition is_space :: "char \<Rightarrow> bool" where
  "is_space c = (c \<in> set [CHR '' '', CHR 0x09, CHR 0x0A, CHR 0x0B, CHR 0x0C, CHR 0x0D])"

text \<open>An optional sign in front of a literal: whether it is negative, and the rest.\<close>

fun take_sign :: "string \<Rightarrow> bool \<times> string" where
  "take_sign [] = (False, [])"
| "take_sign (c # r) =
     (if c = CHR ''-'' then (True, r) else if c = CHR ''+'' then (False, r) else (False, c # r))"

text \<open>
  The longest prefix of the form digits, or digits \<^verbatim>\<open>.\<close> digits (either side of the
  point may be empty, not both): its value and what follows it.
\<close>

definition scan_decimal :: "string \<Rightarrow> (rat \<times> string) option" where
  "scan_decimal s =
     (let ip = takeWhile is_digit s; r1 = dropWhile is_digit s;
          point = (r1 \<noteq> [] \<and> hd r1 = CHR ''.'');
          fp = (if point then takeWhile is_digit (tl r1) else []);
          r2 = (if point then dropWhile is_digit (tl r1) else r1)
      in if ip = [] \<and> fp = [] then None
         else Some (of_nat (digits_val ip) + of_nat (digits_val fp) / 10 ^ length fp, r2))"

text \<open>An exponent part \<^verbatim>\<open>e\<close> or \<^verbatim>\<open>E\<close>, an optional sign, at least one digit.\<close>

definition scan_exponent :: "string \<Rightarrow> (int \<times> string) option" where
  "scan_exponent s =
     (case s of
        [] \<Rightarrow> None
      | c # r \<Rightarrow>
          if c = CHR ''e'' \<or> c = CHR ''E'' then
            (let (neg, r') = take_sign r; ds = takeWhile is_digit r'
             in if ds = [] then None
                else Some (if neg then - int (digits_val ds) else int (digits_val ds),
                           dropWhile is_digit r'))
          else None)"

definition scale10 :: "rat \<Rightarrow> int \<Rightarrow> rat" where
  "scale10 x e = (if 0 \<le> e then x * 10 ^ nat e else x / 10 ^ nat (- e))"

definition signed :: "bool \<Rightarrow> rat \<Rightarrow> rat" where
  "signed neg x = (if neg then - x else x)"

text \<open>
  MySQL comparing a numeric column with a string: the string is read as a number by
  its longest numeric prefix after leading white space; a string with no such prefix
  reads as 0.
\<close>

definition sql_num :: "string \<Rightarrow> rat" where
  "sql_num s =
     (let (neg, r) = take_sign (dropWhile is_space s)
      in case scan_decimal r of
           None \<Rightarrow> 0
         | Some (m, r') \<Rightarrow>
             signed neg (case scan_exponent r' of None \<Rightarrow> m | Some (e, _) \<Rightarrow> scale10 m e))"

text \<open>\<^verbatim>\<open>column = ?\<close> for a numeric column and a string parameter.\<close>

definition sql_eq :: "nat \<Rightarrow> string \<Rightarrow> bool" where
  "sql_eq n s = (of_nat n = sql_num s)"

text \<open>
  JavaScript numbers as far as the handlers look at them: NaN, the infinities (the flag
  says negative), and the finite ones.
\<close>

datatype jsnum = NaN | Inf bool | Num rat

text \<open>
  The doubles are the numbers \<open>m * 2 ^ e\<close> with a mantissa \<open>m\<close> of at most 53 bits
  and an exponent \<open>e\<close> from -1074 (the subnormal numbers) to 971. \<open>round64 x\<close> is
  the double nearest to the rational \<open>x\<close>, the one with the even mantissa when two
  are equally near, and an infinity when that would need an exponent above 971. The sign
  of a zero is not kept: no comparison and no JSON text shows it.
\<close>

definition pow2 :: "int \<Rightarrow> rat" where
  "pow2 k = (if 0 \<le> k then 2 ^ nat k else 1 / 2 ^ nat (- k))"

text \<open>The nearest integer, the even one of two that are equally near.\<close>

definition half_even :: "rat \<Rightarrow> int" where
  "half_even x =
     (let f = \<lfloor>x\<rfloor>; r = x - of_int f
      in if r < 1 / 2 then f else if 1 / 2 < r then f + 1 else if even f then f else f + 1)"

text \<open>
  The exponent of the last mantissa bit of a positive number \<open>x\<close>: with
  \<open>2 ^ l \<le> x < 2 ^ (l + 1)\<close> it is \<open>l - 52\<close>, and never below -1074. The bit lengths
  of numerator and denominator give \<open>l\<close> up to one.
\<close>

definition exponent64 :: "rat \<Rightarrow> int" where
  "exponent64 x =
     (let (a, b) = quotient_of x; k = bitlen a - bitlen b;
          l = (if pow2 k \<le> x then k else k - 1)
      in max (l - 52) (- 1074))"

definition round64 :: "rat \<Rightarrow> jsnum" where
  "round64 x =
     (if x = 0 then Num 0
      else (let e = exponent64 \<bar>x\<bar>; v = of_int (half_even (\<bar>x\<bar> / pow2 e)) * pow2 e
            in if pow2 1024 \<le> v then Inf (x < 0) else Num (if x < 0 then - v else v)))"

text \<open>\<^verbatim>\<open>x - y\<close> on numbers.\<close>

fun js_minus :: "jsnum \<Rightarrow> jsnum \<Rightarrow> jsnum" where
  "js_minus (Num a) (Num b) = round64 (a - b)"
| "js_minus (Num a) (Inf neg) = Inf (\<not> neg)"
| "js_minus (Inf neg) (Num b) = Inf neg"
| "js_minus (Inf neg) (Inf neg') = (if neg = neg' then NaN else Inf neg)"
| "js_minus NaN y = NaN"
| "js_minus x NaN = NaN"

definition trim :: "string \<Rightarrow> string" where
  "trim s = rev (dropWhile is_space (rev (dropWhile is_space s)))"

definition radix_digit :: "nat \<Rightarrow> char \<Rightarrow> nat option" where
  "radix_digit b c =
     (let v = (if is_digit c then digit_val c
               else if c \<in> set ''abcdef'' then of_char c - 87
               else if c \<in> set ''ABCDEF'' then of_char c - 55
               else 99)
      in if v < b then Some v else None)"

definition radix_val :: "nat \<Rightarrow> string \<Rightarrow> nat" where
  "radix_val b ds = foldl (\<lambda>a c. b * a + the (radix_digit b c)) 0 ds"

text \<open>\<^verbatim>\<open>0x\<close>, \<^verbatim>\<open>0o\<close>, \<^verbatim>\<open>0b\<close> literals: the radix and the digits after the prefix.\<close>

fun radix_prefix :: "string \<Rightarrow> (nat \<times> string) option" where
  "radix_prefix (z # x # r) =
     (if z \<noteq> CHR ''0'' then None
      else if x = CHR ''x'' \<or> x = CHR ''X'' then Some (16, r)
      else if x = CHR ''o'' \<or> x = CHR ''O'' then Some (8, r)
      else if x = CHR ''b'' \<or> x = CHR ''B'' then Some (2, r)
      else None)"
| "radix_prefix _ = None"

text \<open>
  The conversion JavaScript applies to a string operand of \<^verbatim>\<open><\<close> and \<^verbatim>\<open>>\<close>
  whose other operand is a number: the whole trimmed string must be a numeric literal,
  which reads as the double nearest to its value; the empty string is 0, anything else
  is NaN.
\<close>

definition toNumber :: "string \<Rightarrow> jsnum" where
  "toNumber s =
     (let t = trim s
      in if t = [] then Num 0
         else (case radix_prefix t of
           Some (b, ds) \<Rightarrow>
             if ds \<noteq> [] \<and> list_all (\<lambda>c. radix_digit b c \<noteq> None) ds
             then round64 (of_nat (radix_val b ds)) else NaN
         | None \<Rightarrow>
             (let (neg, u) = take_sign t
              in if u = ''Infinity'' then Inf neg
                 else (case scan_decimal u of
                   None \<Rightarrow> NaN
                 | Some (m, r) \<Rightarrow>
                     if r = [] then round64 (signed neg m)
                     else (case scan_exponent r of
                             Some (e, r') \<Rightarrow>
                               if r' = [] then round64 (signed neg (scale10 m e)) else NaN
                           | None \<Rightarrow> NaN)))))"

text \<open>\<^verbatim>\<open>x < k\<close> and \<^verbatim>\<open>x > k\<close> for a number \<open>k\<close>: false whenever \<open>x\<close> is NaN.\<close>

fun js_lt :: "jsnum \<Rightarrow> rat \<Rightarrow> bool" where
  "js_lt NaN k = False"
| "js_lt (Inf neg) k = neg"
| "js_lt (Num x) k = (x < k)"

fun js_gt :: "jsnum \<Rightarrow> rat \<Rightarrow> bool" where
  "js_gt NaN k = False"
| "js_gt (Inf neg) k = (\<not> neg)"
| "js_gt (Num x) k = (x > k)"

text \<open>
  \<^verbatim>\<open>parseInt(s)\<close> with no radix: leading white space, a sign, an optional
  \<^verbatim>\<open>0x\<close>, then the longest run of digits. \<open>parseInt\<close> gives the integer these
  digits denote, and \<open>None\<close> where the result is NaN; the number JavaScript holds is
  \<open>js_int\<close> of it, the nearest double, which is that integer itself up to
  \<open>2 ^ 53\<close>.
\<close>

definition parseInt :: "string \<Rightarrow> int option" where
  "parseInt s =
     (let (neg, r) = take_sign (dropWhile is_space s);
          (b, r') = (case radix_prefix r of
                       Some (b0, r'') \<Rightarrow> if b0 = 16 then (16, r'') else (10, r)
                     | None \<Rightarrow> (10, r));
          ds = takeWhile (\<lambda>c. radix_digit b c \<noteq> None) r'
      in if ds = [] then None
         else Some (if neg then - int (radix_val b ds) else int (radix_val b ds)))"

definition js_int :: "int option \<Rightarrow> jsnum" where
  "js_int v = (case v of None \<Rightarrow> NaN | Some k \<Rightarrow> round64 (of_int k))"

text \<open>
  The decimal digits of a number, as the client writes a year, a month or an id into
  the path of a request (\<^verbatim>\<open>/transactions/summary/2024/3\<close>).
\<close>

definition digit_char :: "nat \<Rightarrow> char" where
  "digit_char k = ''0123456789'' ! k"

fun digits_of :: "nat \<Rightarrow> string" where
  "digits_of n =
     (if n < 10 then [digit_char n] else digits_of (n div 10) @ [digit_char (n mod 10)])"

definition dec :: "nat \<Rightarrow> string" where
  "dec n = digits_of n"

subsection \<open>The store\<close>

text \<open>
  The three tables of \<^verbatim>\<open>config/database.js\<close>. A \<^verbatim>\<open>DECIMAL(10,2)\<close> amount is
  an integer number of hundredths, a \<^verbatim>\<open>DATE\<close> is year, month and day, a
  \<^verbatim>\<open>TIMESTAMP\<close> is a number, a nullable column is an option, and the two
  \<^verbatim>\<open>AUTO_INCREMENT\<close> counters the handlers draw ids from are part of the store.
\<close>

datatype kind = INCOME | EXPENSE

record date =
  d_year :: nat
  d_month :: nat
  d_day :: nat

record user =
  u_id :: nat
  u_username :: string
  u_email :: string
  u_password :: string
  u_full_name :: string

record category =
  c_id :: nat
  c_name :: string
  c_description :: "string option"
  c_type :: kind
  c_color :: "string option"
  c_user_id :: "nat option"
  c_is_default :: bool
  c_created_at :: nat
  c_updated_at :: nat

record transaction =
  t_id :: nat
  t_amount :: int
  t_description :: string
  t_transaction_date :: date
  t_type :: kind
  t_category_id :: nat
  t_user_id :: nat
  t_notes :: "string option"
  t_created_at :: nat
  t_updated_at :: nat

record db =
  users :: "user list"
  categories :: "category list"
  transactions :: "transaction list"
  next_category_id :: nat
  next_transaction_id :: nat

text \<open>
  What the code uses and the repository does not contain: the validators of the
  validation library that are more than a length or membership test, the collation
  \<^verbatim>\<open>ORDER BY name\<close> sorts by, and what MySQL does with a string bound to a
  \<^verbatim>\<open>DECIMAL(10,2)\<close> column that is not a number within the range of the column, or
  bound to a \<^verbatim>\<open>DATE\<close> column that is not a day of the calendar written
  \<^verbatim>\<open>YYYY-MM-DD\<close>: depending on the SQL mode of the server the statement fails
  (\<open>None\<close>) or some other value is stored. The handlers take them as a parameter;
  every theorem holds for all of them.
\<close>

record platform =
  isFloat :: "string \<Rightarrow> bool"
  isISO8601 :: "string \<Rightarrow> bool"
  isInt :: "string \<Rightarrow> bool"
  other_decimal :: "string \<Rightarrow> int option"
  other_date :: "string \<Rightarrow> date option"
  collate_le :: "string \<Rightarrow> string \<Rightarrow> bool"

subsection \<open>Strings bound to decimal and date columns\<close>

text \<open>
  A string that is a number as a whole: after leading white space a sign, digits with or
  without a point, an exponent if any, and nothing but white space after it.
\<close>

definition sql_numeric :: "string \<Rightarrow> bool" where
  "sql_numeric s =
     (let (neg, r) = take_sign (dropWhile is_space s)
      in case scan_decimal r of
           None \<Rightarrow> False
         | Some (m, r') \<Rightarrow>
             (case scan_exponent r' of
                None \<Rightarrow> list_all is_space r'
              | Some (e, r'') \<Rightarrow> list_all is_space r''))"

text \<open>The nearest integer, the one further from zero of two that are equally near.\<close>

definition half_away :: "rat \<Rightarrow> int" where
  "half_away x = (if 0 \<le> x then \<lfloor>x + 1 / 2\<rfloor> else - \<lfloor>- x + 1 / 2\<rfloor>)"

text \<open>
  A number bound to the column \<^verbatim>\<open>amount DECIMAL(10,2)\<close> is stored rounded to two
  decimals, halves away from zero, when the rounded value has at most eight digits before
  the point. The result is in hundredths.
\<close>

definition sql_decimal :: "platform \<Rightarrow> string \<Rightarrow> int option" where
  "sql_decimal P s =
     (let c = half_away (sql_num s * 100)
      in if sql_numeric s \<and> \<bar>c\<bar> < 10 ^ 10 then Some c else other_decimal P s)"

text \<open>
  A string of the form \<^verbatim>\<open>YYYY-MM-DD\<close>, which is what the client's date field sends,
  and the days of the calendar in the range of a \<^verbatim>\<open>DATE\<close> column.
\<close>

definition plain_date :: "string \<Rightarrow> date option" where
  "plain_date s =
     (if length s = 10 \<and> s ! 4 = CHR ''-'' \<and> s ! 7 = CHR ''-''
         \<and> list_all is_digit (take 4 s @ take 2 (drop 5 s) @ drop 8 s)
      then Some \<lparr>d_year = digits_val (take 4 s), d_month = digits_val (take 2 (drop 5 s)),
                 d_day = digits_val (drop 8 s)\<rparr>
      else None)"

definition leap_year :: "nat \<Rightarrow> bool" where
  "leap_year y = (if y mod 100 = 0 then y mod 400 = 0 else y mod 4 = 0)"

definition days_in_month :: "nat \<Rightarrow> nat \<Rightarrow> nat" where
  "days_in_month y m =
     (if m = 2 then (if leap_year y then 29 else 28)
      else if m \<in> set [4, 6, 9, 11] then 30 else 31)"

definition calendar_day :: "date \<Rightarrow> bool" where
  "calendar_day d =
     (1000 \<le> d_year d \<and> d_year d \<le> 9999 \<and> 1 \<le> d_month d \<and> d_month d \<le> 12
      \<and> 1 \<le> d_day d \<and> d_day d \<le> days_in_month (d_year d) (d_month d))"

definition sql_date :: "platform \<Rightarrow> string \<Rightarrow> date option" where
  "sql_date P s =
     (case plain_date s of
        None \<Rightarrow> other_date P s
      | Some d \<Rightarrow> if calendar_day d then Some d else other_date P s)"

subsection \<open>Responses\<close>

text \<open>
  \<open>Json s v\<close> is \<^verbatim>\<open>res.status(s).json(v)\<close>, \<open>Error s m\<close> is
  \<^verbatim>\<open>res.status(s).json({ error: m })\<close> (the \<^verbatim>\<open>details\<close> of a failed validation are
  left out), and \<open>InternalError\<close> is the outer \<^verbatim>\<open>catch\<close> of a route, status 500 with
  the message of whatever was thrown.
\<close>

datatype 'a response = Json nat 'a | Error nat string | InternalError

fun status :: "'a response \<Rightarrow> nat" where
  "status (Json s v) = s"
| "status (Error s m) = s"
| "status InternalError = 500"

text \<open>
  The driver hands a \<^verbatim>\<open>DECIMAL\<close> column, and a sum of one, to the handler as a
  string with two decimals; \<^verbatim>\<open>parseFloat\<close> of it is the double nearest to the
  value. The argument is the value in hundredths.
\<close>

definition parseFloat :: "int \<Rightarrow> jsnum" where
  "parseFloat c = round64 (of_int c / 100)"

subsection \<open>Helpers shared by the routes\<close>

text \<open>
  A field of a request body is a string or absent. A JSON number is the string of its
  digits. A JSON null is an absent field, which the validators and \<^verbatim>\<open>||\<close> treat
  alike, except where a validator is \<^verbatim>\<open>optional()\<close> and not a length test, the
  colour of a category: there null is the empty string, which the validator reads it
  as. An absent field validates as the empty string.
\<close>

definition str :: "string option \<Rightarrow> string" where
  "str v = (case v of None \<Rightarrow> [] | Some s \<Rightarrow> s)"

text \<open>\<^verbatim>\<open>v || null\<close> for an optional string: absent and empty both become null.\<close>

definition or_null :: "string option \<Rightarrow> string option" where
  "or_null v = (case v of None \<Rightarrow> None | Some s \<Rightarrow> if s = [] then None else Some s)"

text \<open>\<^verbatim>\<open>v || d\<close> for an optional string and a nullable default.\<close>

definition or_else :: "string option \<Rightarrow> string option \<Rightarrow> string option" where
  "or_else v d = (case or_null v of None \<Rightarrow> d | Some s \<Rightarrow> Some s)"

definition isLength :: "nat \<Rightarrow> nat \<Rightarrow> string \<Rightarrow> bool" where
  "isLength lo hi s = (lo \<le> length s \<and> length s \<le> hi)"

definition kind_of :: "string \<Rightarrow> kind option" where
  "kind_of s = (if s = ''INCOME'' then Some INCOME else if s = ''EXPENSE'' then Some EXPENSE else None)"

text \<open>\<^verbatim>\<open>['INCOME', 'EXPENSE'].includes(type)\<close>, also the validator \<^verbatim>\<open>isIn\<close>.\<close>

definition isIn :: "string \<Rightarrow> bool" where
  "isIn s = (s \<in> set [''INCOME'', ''EXPENSE''])"

text \<open>\<^verbatim>\<open>/^#[0-9A-F]{6}$/i\<close>\<close>

definition matches_color :: "string \<Rightarrow> bool" where
  "matches_color s =
     (case s of
        [] \<Rightarrow> False
      | h # r \<Rightarrow> h = CHR ''#'' \<and> length r = 6 \<and> list_all (\<lambda>c. radix_digit 16 c \<noteq> None) r)"

text \<open>\<^verbatim>\<open>ORDER BY\<close> as a stable insertion sort by the given order.\<close>

fun insert_by :: "('a \<Rightarrow> 'a \<Rightarrow> bool) \<Rightarrow> 'a \<Rightarrow> 'a list \<Rightarrow> 'a list" where
  "insert_by le x [] = [x]"
| "insert_by le x (y # ys) = (if le x y then x # y # ys else y # insert_by le x ys)"

definition order_by :: "('a \<Rightarrow> 'a \<Rightarrow> bool) \<Rightarrow> 'a list \<Rightarrow> 'a list" where
  "order_by le xs = foldr (insert_by le) xs []"

text \<open>\<^verbatim>\<open>user_id = ? OR is_default = TRUE\<close>\<close>

definition visible :: "nat \<Rightarrow> category \<Rightarrow> bool" where
  "visible uid c = (c_user_id c = Some uid \<or> c_is_default c)"

subsection \<open>Category routes\<close>

record category_body =
  cb_name :: "string option"
  cb_description :: "string option"
  cb_color :: "string option"
  cb_type :: "string option"

definition categoryValidation :: "category_body \<Rightarrow> bool" where
  "categoryValidation b =
     (isLength 2 100 (str (cb_name b))
      \<and> (case cb_description b of None \<Rightarrow> True | Some d \<Rightarrow> isLength 0 255 d)
      \<and> isIn (str (cb_type b))
      \<and> (case cb_color b of None \<Rightarrow> True | Some c \<Rightarrow> matches_color c))"

text \<open>\<^verbatim>\<open>GET /categories\<close>\<close>

definition getCategories :: "platform \<Rightarrow> db \<Rightarrow> nat \<Rightarrow> category list response" where
  "getCategories P d uid =
     Json 200 (order_by (\<lambda>a b. collate_le P (c_name a) (c_name b))
                 (filter (visible uid) (categories d)))"

text \<open>\<^verbatim>\<open>GET /categories/type/:type\<close>\<close>

definition getCategoriesByType :: "platform \<Rightarrow> db \<Rightarrow> nat \<Rightarrow> string \<Rightarrow> category list response" where
  "getCategoriesByType P d uid type =
     (if \<not> isIn type then Error 400 ''Invalid category type''
      else Json 200 (order_by (\<lambda>a b. collate_le P (c_name a) (c_name b))
                       (filter (\<lambda>c. visible uid c \<and> Some (c_type c) = kind_of type)
                          (categories d))))"

text \<open>\<^verbatim>\<open>POST /categories\<close>\<close>

definition createCategory :: "nat \<Rightarrow> db \<Rightarrow> nat \<Rightarrow> category_body \<Rightarrow> category response \<times> db" where
  "createCategory now d uid b =
     (if \<not> categoryValidation b then (Error 400 ''Validation failed'', d)
      else case (cb_name b, Option.bind (cb_type b) kind_of) of
        (Some name, Some type) \<Rightarrow>
          (let insertId = next_category_id d;
               d' = d\<lparr>categories := categories d @
                        [\<lparr>c_id = insertId, c_name = name,
                          c_description = or_null (cb_description b), c_type = type,
                          c_color = or_else (cb_color b) (Some ''#FF6B6B''),
                          c_user_id = Some uid, c_is_default = False,
                          c_created_at = now, c_updated_at = now\<rparr>],
                      next_category_id := insertId + 1\<rparr>
           in case filter (\<lambda>c. c_id c = insertId) (categories d') of
                [] \<Rightarrow> (InternalError, d')
              | created # _ \<Rightarrow> (Json 201 created, d'))
      | _ \<Rightarrow> (InternalError, d))"

text \<open>
  \<^verbatim>\<open>PUT /categories/:id\<close>. The validation middleware runs before the handler looks
  the category up. A bound parameter that is \<^verbatim>\<open>undefined\<close> makes the driver throw.
\<close>

definition updateCategory ::
  "nat \<Rightarrow> db \<Rightarrow> nat \<Rightarrow> string \<Rightarrow> category_body \<Rightarrow> category response \<times> db" where
  "updateCategory now d uid idp b =
     (if \<not> categoryValidation b then (Error 400 ''Validation failed'', d)
      else case filter (\<lambda>c. sql_eq (c_id c) idp) (categories d) of
        [] \<Rightarrow> (Error 404 ''Category not found'', d)
      | category # _ \<Rightarrow>
          if c_is_default category \<or> c_user_id category \<noteq> Some uid
          then (Error 403 ''Cannot modify this category'', d)
          else (case (cb_name b, Option.bind (cb_type b) kind_of) of
            (Some name, Some type) \<Rightarrow>
              (let d' = d\<lparr>categories :=
                     map (\<lambda>c. if sql_eq (c_id c) idp
                               then c\<lparr>c_name := name,
                                      c_description := or_null (cb_description b),
                                      c_color := or_else (cb_color b) (c_color category),
                                      c_type := type,
                                      c_updated_at := now\<rparr>
                               else c)
                       (categories d)\<rparr>
               in case filter (\<lambda>c. sql_eq (c_id c) idp) (categories d') of
                    [] \<Rightarrow> (InternalError, d')
                  | updated # _ \<Rightarrow> (Json 200 updated, d'))
          | _ \<Rightarrow> (InternalError, d)))"

text \<open>\<^verbatim>\<open>DELETE /categories/:id\<close>\<close>

definition deleteCategory :: "db \<Rightarrow> nat \<Rightarrow> string \<Rightarrow> string response \<times> db" where
  "deleteCategory d uid idp =
     (case filter (\<lambda>c. sql_eq (c_id c) idp) (categories d) of
        [] \<Rightarrow> (Error 404 ''Category not found'', d)
      | category # _ \<Rightarrow>
          if c_is_default category \<or> c_user_id category \<noteq> Some uid
          then (Error 403 ''Cannot delete this category'', d)
          else if length (filter (\<lambda>t. sql_eq (t_category_id t) idp) (transactions d)) > 0
          then (Error 400 ''Cannot delete category that is being used in transactions'', d)
          else (Json 200 ''Category deleted successfully'',
                d\<lparr>categories := filter (\<lambda>c. \<not> sql_eq (c_id c) idp) (categories d)\<rparr>))"

subsection \<open>Transaction routes\<close>

text \<open>
  \<^verbatim>\<open>FROM transactions t JOIN categories c ON t.category_id = c.id\<close>: every
  transaction paired with each category of that id.
\<close>

definition joined :: "db \<Rightarrow> (transaction \<times> category) list" where
  "joined d =
     concat (map (\<lambda>t. map (Pair t) (filter (\<lambda>c. t_category_id t = c_id c) (categories d)))
               (transactions d))"

record category_view =
  v_id :: nat
  v_name :: string
  v_type :: kind
  v_color :: "string option"

record transaction_view =
  r_id :: nat
  r_amount :: jsnum
  r_description :: string
  r_transactionDate :: date
  r_type :: kind
  r_notes :: "string option"
  r_createdAt :: nat
  r_updatedAt :: nat
  r_category :: category_view

text \<open>
  \<^verbatim>\<open>formatTransactionResponse\<close>: the amount goes through \<^verbatim>\<open>parseFloat\<close>, the other
  columns are passed on. The date is the day of the \<^verbatim>\<open>DATE\<close> column; how the driver
  writes that day into the JSON text is not spelled out.
\<close>

definition formatTransactionResponse :: "transaction \<times> category \<Rightarrow> transaction_view" where
  "formatTransactionResponse row =
     (case row of (t, c) \<Rightarrow>
        \<lparr>r_id = t_id t,
         r_amount = parseFloat (t_amount t),
         r_description = t_description t,
         r_transactionDate = t_transaction_date t,
         r_type = t_type t,
         r_notes = t_notes t,
         r_createdAt = t_created_at t,
         r_updatedAt = t_updated_at t,
         r_category = \<lparr>v_id = t_category_id t, v_name = c_name c,
                       v_type = c_type c, v_color = c_color c\<rparr>\<rparr>)"

text \<open>\<^verbatim>\<open>ORDER BY t.transaction_date DESC, t.created_at DESC\<close>\<close>

definition date_lt :: "date \<Rightarrow> date \<Rightarrow> bool" where
  "date_lt a b =
     (d_year a < d_year b
      \<or> (d_year a = d_year b
          \<and> (d_month a < d_month b \<or> (d_month a = d_month b \<and> d_day a < d_day b))))"

definition newest_first :: "transaction \<times> category \<Rightarrow> transaction \<times> category \<Rightarrow> bool" where
  "newest_first x y =
     (date_lt (t_transaction_date (fst y)) (t_transaction_date (fst x))
      \<or> (t_transaction_date (fst x) = t_transaction_date (fst y)
          \<and> t_created_at (fst y) \<le> t_created_at (fst x)))"

text \<open>
  \<^verbatim>\<open>if (!year || !month || month < 1 || month > 12)\<close>: the parameters are strings,
  so \<^verbatim>\<open>!year\<close> asks whether the string is empty and the comparisons convert
  \<^verbatim>\<open>month\<close> to a number first.
\<close>

definition invalid_year_month :: "string \<Rightarrow> string \<Rightarrow> bool" where
  "invalid_year_month year month =
     (year = [] \<or> month = [] \<or> js_lt (toNumber month) 1 \<or> js_gt (toNumber month) 12)"

text \<open>
  \<^verbatim>\<open>YEAR(transaction_date) = ? AND MONTH(transaction_date) = ?\<close> with the two route
  parameters bound as strings.
\<close>

definition in_month :: "string \<Rightarrow> string \<Rightarrow> transaction \<Rightarrow> bool" where
  "in_month year month t =
     (sql_eq (d_year (t_transaction_date t)) year \<and> sql_eq (d_month (t_transaction_date t)) month)"

text \<open>\<^verbatim>\<open>GET /transactions/monthly/:year/:month\<close>\<close>

definition getMonthly :: "db \<Rightarrow> nat \<Rightarrow> string \<Rightarrow> string \<Rightarrow> transaction_view list response" where
  "getMonthly d uid year month =
     (if invalid_year_month year month then Error 400 ''Invalid year or month''
      else Json 200 (map formatTransactionResponse
             (order_by newest_first
                (filter (\<lambda>(t, c). t_user_id t = uid \<and> in_month year month t) (joined d)))))"

record summary =
  s_income :: jsnum
  s_expense :: jsnum
  s_balance :: jsnum
  s_year :: jsnum
  s_month :: jsnum

text \<open>
  \<^verbatim>\<open>SELECT COALESCE(SUM(amount), 0) ... WHERE user_id = ? AND type = .. AND YEAR(..) = ? AND MONTH(..) = ?\<close>:
  the sum of a decimal column is exact, and 0 when no row matches.
\<close>

definition month_total :: "db \<Rightarrow> nat \<Rightarrow> kind \<Rightarrow> string \<Rightarrow> string \<Rightarrow> int" where
  "month_total d uid k year month =
     sum_list (map t_amount
       (filter (\<lambda>t. t_user_id t = uid \<and> t_type t = k \<and> in_month year month t) (transactions d)))"

text \<open>\<^verbatim>\<open>GET /transactions/summary/:year/:month\<close>\<close>

definition getSummary :: "db \<Rightarrow> nat \<Rightarrow> string \<Rightarrow> string \<Rightarrow> summary response" where
  "getSummary d uid year month =
     (if invalid_year_month year month then Error 400 ''Invalid year or month''
      else (let income = parseFloat (month_total d uid INCOME year month);
                expense = parseFloat (month_total d uid EXPENSE year month);
                balance = js_minus income expense
            in Json 200 \<lparr>s_income = income, s_expense = expense, s_balance = balance,
                         s_year = js_int (parseInt year), s_month = js_int (parseInt month)\<rparr>))"

text \<open>
  \<^verbatim>\<open>GET /transactions\<close>. \<^verbatim>\<open>parseInt(undefined)\<close> is NaN; \<^verbatim>\<open>page && size\<close>
  holds when neither is NaN or 0. A negative \<^verbatim>\<open>LIMIT\<close> or \<^verbatim>\<open>OFFSET\<close> is refused by
  the database, which the route reports as status 500. Page, size and offset are the
  integers the parameters denote: as doubles they are these integers up to \<open>2 ^ 53\<close>,
  which is beyond every rank of a table.
\<close>

definition truthy :: "int option \<Rightarrow> bool" where
  "truthy v = (case v of None \<Rightarrow> False | Some n \<Rightarrow> n \<noteq> 0)"

definition getTransactions ::
  "db \<Rightarrow> nat \<Rightarrow> string option \<Rightarrow> string option \<Rightarrow> transaction_view list response" where
  "getTransactions d uid qpage qsize =
     (let page = Option.bind qpage parseInt;
          size = Option.bind qsize parseInt;
          rows = order_by newest_first (filter (\<lambda>(t, c). t_user_id t = uid) (joined d))
      in if truthy page \<and> truthy size then
           (let offset = (the page - 1) * the size
            in if the size < 0 \<or> offset < 0 then InternalError
               else Json 200 (map formatTransactionResponse
                      (take (nat (the size)) (drop (nat offset) rows))))
         else Json 200 (map formatTransactionResponse rows))"

record transaction_body =
  tb_amount :: "string option"
  tb_description :: "string option"
  tb_transactionDate :: "string option"
  tb_type :: "string option"
  tb_categoryId :: "string option"
  tb_notes :: "string option"

definition transactionValidation :: "platform \<Rightarrow> transaction_body \<Rightarrow> bool" where
  "transactionValidation P b =
     (isFloat P (str (tb_amount b))
      \<and> isLength 2 255 (str (tb_description b))
      \<and> isISO8601 P (str (tb_transactionDate b))
      \<and> isIn (str (tb_type b))
      \<and> isInt P (str (tb_categoryId b))
      \<and> (case tb_notes b of None \<Rightarrow> True | Some n \<Rightarrow> isLength 0 500 n))"

text \<open>
  A string bound to the \<^verbatim>\<open>BIGINT\<close> column \<^verbatim>\<open>category_id\<close> is stored as the integer
  nearest to its numeric reading.
\<close>

definition sql_bigint :: "string \<Rightarrow> nat" where
  "sql_bigint s = nat (round (sql_num s))"

text \<open>
  The values an \<^verbatim>\<open>INSERT\<close> or \<^verbatim>\<open>UPDATE\<close> of a transaction binds, converted to the
  column types; \<open>None\<close> when a bound value is \<^verbatim>\<open>undefined\<close> or a conversion fails,
  and the statement throws. (A JSON number in the body is bound as a number and stored
  as the decimal its shortest digits denote, which is how a body field carries it here.)
\<close>

definition bound_values ::
  "platform \<Rightarrow> transaction_body \<Rightarrow> (int \<times> string \<times> date \<times> kind \<times> nat) option" where
  "bound_values P b =
     do {
       amount \<leftarrow> Option.bind (tb_amount b) (sql_decimal P);
       description \<leftarrow> tb_description b;
       transactionDate \<leftarrow> Option.bind (tb_transactionDate b) (sql_date P);
       type \<leftarrow> Option.bind (tb_type b) kind_of;
       categoryId \<leftarrow> tb_categoryId b;
       Some (amount, description, transactionDate, type, sql_bigint categoryId)
     }"

text \<open>
  \<^verbatim>\<open>SELECT * FROM categories WHERE id = ? AND (user_id = ? OR is_default = TRUE)\<close>
\<close>

definition accessible :: "db \<Rightarrow> nat \<Rightarrow> string \<Rightarrow> category list" where
  "accessible d uid categoryId =
     filter (\<lambda>c. sql_eq (c_id c) categoryId \<and> visible uid c) (categories d)"

text \<open>\<^verbatim>\<open>POST /transactions\<close>\<close>

definition createTransaction ::
  "platform \<Rightarrow> nat \<Rightarrow> db \<Rightarrow> nat \<Rightarrow> transaction_body \<Rightarrow> transaction_view response \<times> db" where
  "createTransaction P now d uid b =
     (if \<not> transactionValidation P b then (Error 400 ''Validation failed'', d)
      else case tb_categoryId b of
        None \<Rightarrow> (InternalError, d)
      | Some categoryId \<Rightarrow>
          if length (accessible d uid categoryId) = 0 then (Error 400 ''Invalid category'', d)
          else (case bound_values P b of
            None \<Rightarrow> (InternalError, d)
          | Some (amount, description, transactionDate, type, cid) \<Rightarrow>
              (let insertId = next_transaction_id d;
                   d' = d\<lparr>transactions := transactions d @
                            [\<lparr>t_id = insertId, t_amount = amount, t_description = description,
                              t_transaction_date = transactionDate, t_type = type,
                              t_category_id = cid, t_user_id = uid,
                              t_notes = or_null (tb_notes b),
                              t_created_at = now, t_updated_at = now\<rparr>],
                          next_transaction_id := insertId + 1\<rparr>
               in case filter (\<lambda>(t, c). t_id t = insertId) (joined d') of
                    [] \<Rightarrow> (InternalError, d')
                  | row # _ \<Rightarrow> (Json 201 (formatTransactionResponse row), d'))))"


text \<open>\<^verbatim>\<open>PUT /transactions/:id\<close>\<close>

definition updateTransaction ::
  "platform \<Rightarrow> nat \<Rightarrow> db \<Rightarrow> nat \<Rightarrow> string \<Rightarrow> transaction_body
     \<Rightarrow> transaction_view response \<times> db" where
  "updateTransaction P now d uid idp b =
     (if \<not> transactionValidation P b then (Error 400 ''Validation failed'', d)
      else if length (filter (\<lambda>t. sql_eq (t_id t) idp \<and> t_user_id t = uid) (transactions d)) = 0
      then (Error 404 ''Transaction not found'', d)
      else case tb_categoryId b of
        None \<Rightarrow> (InternalError, d)
      | Some categoryId \<Rightarrow>
          if length (accessible d uid categoryId) = 0 then (Error 400 ''Invalid category'', d)
          else (case bound_values P b of
            None \<Rightarrow> (InternalError, d)
          | Some (amount, description, transactionDate, type, cid) \<Rightarrow>
              (let d' = d\<lparr>transactions :=
                     map (\<lambda>t. if sql_eq (t_id t) idp \<and> t_user_id t = uid
                               then t\<lparr>t_amount := amount, t_description := description,
                                      t_transaction_date := transactionDate, t_type := type,
                                      t_category_id := cid, t_notes := or_null (tb_notes b),
                                      t_updated_at := now\<rparr>
                               else t)
                       (transactions d)\<rparr>
               in case filter (\<lambda>(t, c). sql_eq (t_id t) idp) (joined d') of
                    [] \<Rightarrow> (InternalError, d')
                  | row # _ \<Rightarrow> (Json 200 (formatTransactionResponse row), d'))))"

text \<open>\<^verbatim>\<open>DELETE /transactions/:id\<close>\<close>

definition deleteTransaction :: "db \<Rightarrow> nat \<Rightarrow> string \<Rightarrow> string response \<times> db" where
  "deleteTransaction d uid idp =
     (let d' = d\<lparr>transactions :=
            filter (\<lambda>t. \<not> (sql_eq (t_id t) idp \<and> t_user_id t = uid)) (transactions d)\<rparr>
      in if length (transactions d) - length (transactions d') = 0
         then (Error 404 ''Transaction not found'', d')
         else (Json 200 ''Transaction deleted successfully'', d'))"

subsection \<open>Login\<close>

text \<open>
  Password hashing and the token library are not part of the repository; the routes take
  them as a parameter. \<open>jwt_verify\<close> gives the \<^verbatim>\<open>id\<close> claim of a token it accepts
  and otherwise the name of the error it throws.
\<close>

datatype jwt_error = JsonWebTokenError | TokenExpiredError | NotBeforeError

record crypto =
  bcrypt_compare :: "string \<Rightarrow> string \<Rightarrow> bool"
  jwt_sign :: "user \<Rightarrow> string"
  jwt_verify :: "string \<Rightarrow> jwt_error + nat"

text \<open>
  The password of a login body is any JSON value: a string, or a number or boolean,
  which comes with the text \<^verbatim>\<open>String\<close> gives it, the text the validators read.
  (Arrays and objects are left out, and the username is taken to be a string.)
\<close>

datatype jsvalue = JString string | JOther string

definition text_of :: "jsvalue option \<Rightarrow> string" where
  "text_of v = (case v of None \<Rightarrow> [] | Some (JString s) \<Rightarrow> s | Some (JOther s) \<Rightarrow> s)"

record login_body =
  l_username :: "string option"
  l_password :: "jsvalue option"

record login_view =
  a_token :: string
  a_username :: string
  a_email :: string
  a_fullName :: string

definition loginValidation :: "login_body \<Rightarrow> bool" where
  "loginValidation b = (str (l_username b) \<noteq> [] \<and> text_of (l_password b) \<noteq> [])"

text \<open>
  \<^verbatim>\<open>POST /auth/login\<close>. The handler passes \<^verbatim>\<open>req.body.password\<close> to
  \<^verbatim>\<open>bcrypt.compare\<close> as it is; the library throws
  \<^verbatim>\<open>Illegal arguments\<close> unless both arguments are strings, and the outer
  \<^verbatim>\<open>catch\<close> of the route answers with status 500.
\<close>

definition login :: "crypto \<Rightarrow> db \<Rightarrow> login_body \<Rightarrow> login_view response" where
  "login K d b =
     (if \<not> loginValidation b then Error 400 ''Validation failed''
      else case (l_username b, l_password b) of
        (Some username, Some password) \<Rightarrow>
          (case filter (\<lambda>u. u_username u = username) (users d) of
             [] \<Rightarrow> Error 401 ''Invalid username or password!''
           | user # _ \<Rightarrow>
               (case password of
                  JOther _ \<Rightarrow> Error 500 ''Internal server error''
                | JString p \<Rightarrow>
                    if \<not> bcrypt_compare K p (u_password user)
                    then Error 401 ''Invalid username or password!''
                    else Json 200 \<lparr>a_token = jwt_sign K user, a_username = u_username user,
                                   a_email = u_email user, a_fullName = u_full_name user\<rparr>))
      | _ \<Rightarrow> Error 500 ''Internal server error'')"

subsection \<open>The connection pool, the authentication gate and a route that uses both\<close>

text \<open>
  The pool of \<^verbatim>\<open>config/database.js\<close> hands out at most ten connections and queues
  further requests without limit: \<^verbatim>\<open>getConnection\<close> on an exhausted pool does not
  return until a connection is released, which is the result \<open>None\<close> here.
\<close>

record pool =
  held :: nat

definition connectionLimit :: nat where
  "connectionLimit = 10"

definition getConnection :: "pool \<Rightarrow> pool option" where
  "getConnection p = (if held p < connectionLimit then Some (p\<lparr>held := held p + 1\<rparr>) else None)"

definition release :: "pool \<Rightarrow> pool" where
  "release p = p\<lparr>held := held p - 1\<rparr>"

text \<open>\<^verbatim>\<open>s.split(c)\<close>\<close>

fun split_on :: "char \<Rightarrow> string \<Rightarrow> string list" where
  "split_on c [] = [[]]"
| "split_on c (x # xs) =
     (if x = c then [] # split_on c xs
      else (case split_on c xs of [] \<Rightarrow> [[x]] | y # ys \<Rightarrow> (x # y) # ys))"

text \<open>
  \<^verbatim>\<open>authHeader && authHeader.split(' ')[1]\<close>, with \<open>None\<close> for every value
  \<^verbatim>\<open>!token\<close> rejects: no header, an empty one, no second part, an empty second part.
\<close>

definition bearer_token :: "string option \<Rightarrow> string option" where
  "bearer_token authHeader =
     (case authHeader of
        None \<Rightarrow> None
      | Some h \<Rightarrow>
          (case split_on CHR '' '' h of
             _ # token # _ \<Rightarrow> if token = [] then None else Some token
           | _ \<Rightarrow> None))"

record auth_user =
  au_id :: nat
  au_username :: string
  au_email :: string
  au_full_name :: string

datatype gate = Next auth_user | Reject nat string

text \<open>
  \<^verbatim>\<open>authenticateToken\<close> of \<^verbatim>\<open>middleware/auth.js\<close>. \<open>query_fails\<close> says that
  \<^verbatim>\<open>connection.execute\<close> throws with the connection still open (a lock wait or
  statement timeout, a killed query, a table that is not there).
  The middleware calls \<^verbatim>\<open>connection.release()\<close> on the line after the query and has
  no \<^verbatim>\<open>finally\<close>: when the query throws, control goes to the \<^verbatim>\<open>catch\<close>.
\<close>

definition authenticateToken ::
  "crypto \<Rightarrow> pool \<Rightarrow> bool \<Rightarrow> db \<Rightarrow> string option \<Rightarrow> (gate \<times> pool) option" where
  "authenticateToken K p query_fails d authHeader =
     (case bearer_token authHeader of
        None \<Rightarrow> Some (Reject 401 ''Access token required'', p)
      | Some token \<Rightarrow>
          (case jwt_verify K token of
             Inl e \<Rightarrow>
               Some (if e = JsonWebTokenError then Reject 403 ''Invalid token''
                     else if e = TokenExpiredError then Reject 403 ''Token expired''
                     else Reject 500 ''Internal server error'', p)
           | Inr decoded_id \<Rightarrow>
               (case getConnection p of
                  None \<Rightarrow> None
                | Some connection \<Rightarrow>
                    if query_fails then Some (Reject 500 ''Internal server error'', connection)
                    else (let found = filter (\<lambda>u. u_id u = decoded_id) (users d);
                              released = release connection
                          in case found of
                               [] \<Rightarrow> Some (Reject 401 ''User not found'', released)
                             | u # _ \<Rightarrow>
                                 Some (Next \<lparr>au_id = u_id u, au_username = u_username u,
                                              au_email = u_email u,
                                              au_full_name = u_full_name u\<rparr>, released)))))"

text \<open>
  \<^verbatim>\<open>GET /transactions/date-range\<close>, with the pool and a possibly failing query: the
  route validates before it takes a connection, and releases the connection in a
  \<^verbatim>\<open>finally\<close>.
\<close>

definition date_le :: "date \<Rightarrow> date \<Rightarrow> bool" where
  "date_le a b = (a = b \<or> date_lt a b)"

definition getDateRange ::
  "platform \<Rightarrow> pool \<Rightarrow> bool \<Rightarrow> db \<Rightarrow> nat \<Rightarrow> string option \<Rightarrow> string option
     \<Rightarrow> (transaction_view list response \<times> pool) option" where
  "getDateRange P p query_fails d uid startDate endDate =
     (if \<not> (isISO8601 P (str startDate) \<and> isISO8601 P (str endDate))
      then Some (Error 400 ''Validation failed'', p)
      else case getConnection p of
        None \<Rightarrow> None
      | Some connection \<Rightarrow>
          Some (if query_fails then InternalError
                else (case (Option.bind startDate (sql_date P), Option.bind endDate (sql_date P)) of
                  (Some lo, Some hi) \<Rightarrow>
                    Json 200 (map formatTransactionResponse
                      (order_by newest_first
                         (filter (\<lambda>(t, c). t_user_id t = uid
                                    \<and> date_le lo (t_transaction_date t)
                                    \<and> date_le (t_transaction_date t) hi)
                            (joined d))))
                | _ \<Rightarrow> InternalError),
                release connection))"

subsection \<open>The constraints of the schema\<close>

text \<open>
  What the tables' keys promise: ids are unique and below the \<^verbatim>\<open>AUTO_INCREMENT\<close>
  counter, a category with an owner is not a default one, and the category of every
  transaction exists (\<^verbatim>\<open>FOREIGN KEY (category_id) REFERENCES categories(id)\<close>).
\<close>

definition store_ok :: "db \<Rightarrow> bool" where
  "store_ok d =
     (distinct (map c_id (categories d))
      \<and> list_all (\<lambda>c. c_id c < next_category_id d) (categories d)
      \<and> list_all (\<lambda>c. c_user_id c = None \<or> \<not> c_is_default c) (categories d)
      \<and> distinct (map t_id (transactions d))
      \<and> list_all (\<lambda>t. t_id t < next_transaction_id d) (transactions d)
      \<and> list_all (\<lambda>t. t_category_id t \<in> c_id ` set (categories d)) (transactions d))"

subsection \<open>A platform to evaluate the routes on\<close>

text \<open>
  For examples only: amounts are numbers of at least 0.01; dates have the form
  \<^verbatim>\<open>YYYY-MM-DD\<close>; a category id is a run of digits that is at least 1; names are
  ordered by their character codes; the database refuses whatever it may refuse.
  Passwords are compared with what follows \<^verbatim>\<open>hash-\<close>, and a token is
  \<^verbatim>\<open>token-\<close> followed by as many \<^verbatim>\<open>1\<close> as the user id says.
\<close>

fun codes_le :: "string \<Rightarrow> string \<Rightarrow> bool" where
  "codes_le [] b = True"
| "codes_le (x # a) [] = False"
| "codes_le (x # a) (y # b) =
     ((of_char x :: nat) < of_char y \<or> (x = y \<and> codes_le a b))"

definition plain :: platform where
  "plain =
     \<lparr>isFloat = (\<lambda>s. sql_numeric s \<and> 1 / 100 \<le> sql_num s),
      isISO8601 = (\<lambda>s. plain_date s \<noteq> None),
      isInt = (\<lambda>s. s \<noteq> [] \<and> list_all is_digit s \<and> 1 \<le> digits_val s),
      other_decimal = (\<lambda>s. None),
      other_date = (\<lambda>s. None),
      collate_le = codes_le\<rparr>"

definition token_id :: "string \<Rightarrow> jwt_error + nat" where
  "token_id s =
     (if take 6 s = ''token-'' \<and> list_all (\<lambda>c. c = CHR ''1'') (drop 6 s)
      then Inr (length (drop 6 s)) else Inl JsonWebTokenError)"

definition toy :: crypto where
  "toy =
     \<lparr>bcrypt_compare = (\<lambda>password hash. hash = ''hash-'' @ password),
      jwt_sign = (\<lambda>u. ''token-'' @ replicate (u_id u) CHR ''1''),
      jwt_verify = token_id\<rparr>"

subsection \<open>A small store to evaluate the routes on\<close>

text \<open>
  Two users, two default categories, one category of each user, and four transactions:
  three of the first user (two of them in March 2024), one of the second.
\<close>

definition alice :: user where
  "alice = \<lparr>u_id = 1, u_username = ''alice'', u_email = ''alice@example.org'',
            u_password = ''hash-a'', u_full_name = ''Alice A''\<rparr>"

definition bob :: user where
  "bob = \<lparr>u_id = 2, u_username = ''bob'', u_email = ''bob@example.org'',
          u_password = ''hash-b'', u_full_name = ''Bob B''\<rparr>"

definition salary :: category where
  "salary = \<lparr>c_id = 1, c_name = ''Salary'', c_description = Some ''Monthly salary'',
             c_type = INCOME, c_color = Some ''#4CAF50'', c_user_id = None,
             c_is_default = True, c_created_at = 0, c_updated_at = 0\<rparr>"

definition shopping :: category where
  "shopping = \<lparr>c_id = 2, c_name = ''Shopping'', c_description = Some ''Shopping and retail expenses'',
               c_type = EXPENSE, c_color = Some ''#E91E63'', c_user_id = None,
               c_is_default = True, c_created_at = 0, c_updated_at = 0\<rparr>"

definition books :: category where
  "books = \<lparr>c_id = 3, c_name = ''Books'', c_description = Some ''Paper only'',
            c_type = EXPENSE, c_color = Some ''#112233'', c_user_id = Some 1,
            c_is_default = False, c_created_at = 5, c_updated_at = 5\<rparr>"

definition gifts :: category where
  "gifts = \<lparr>c_id = 4, c_name = ''Gifts'', c_description = None,
            c_type = EXPENSE, c_color = Some ''#FF6B6B'', c_user_id = Some 2,
            c_is_default = False, c_created_at = 6, c_updated_at = 6\<rparr>"

definition pay :: transaction where
  "pay = \<lparr>t_id = 1, t_amount = 250000, t_description = ''March pay'',
          t_transaction_date = \<lparr>d_year = 2024, d_month = 3, d_day = 1\<rparr>, t_type = INCOME,
          t_category_id = 1, t_user_id = 1, t_notes = None,
          t_created_at = 10, t_updated_at = 10\<rparr>"

definition novel :: transaction where
  "novel = \<lparr>t_id = 2, t_amount = 1250, t_description = ''A novel'',
            t_transaction_date = \<lparr>d_year = 2024, d_month = 3, d_day = 15\<rparr>, t_type = EXPENSE,
            t_category_id = 3, t_user_id = 1, t_notes = Some ''second hand'',
            t_created_at = 11, t_updated_at = 11\<rparr>"

definition shoes :: transaction where
  "shoes = \<lparr>t_id = 3, t_amount = 9990, t_description = ''Shoes'',
            t_transaction_date = \<lparr>d_year = 2024, d_month = 4, d_day = 2\<rparr>, t_type = EXPENSE,
            t_category_id = 2, t_user_id = 1, t_notes = None,
            t_created_at = 12, t_updated_at = 12\<rparr>"

definition present :: transaction where
  "present = \<lparr>t_id = 4, t_amount = 500, t_description = ''Present'',
              t_transaction_date = \<lparr>d_year = 2024, d_month = 3, d_day = 20\<rparr>, t_type = EXPENSE,
              t_category_id = 4, t_user_id = 2, t_notes = None,
              t_created_at = 13, t_updated_at = 13\<rparr>"

definition ledger :: db where
  "ledger = \<lparr>users = [alice, bob], categories = [salary, shopping, books, gifts],
             transactions = [pay, novel, shoes, present],
             next_category_id = 5, next_transaction_id = 5\<rparr>"

text \<open>
  Two request bodies of the first user: a lunch booked on the second user's category,
  and the same lunch booked on her own.
\<close>

definition lunch :: transaction_body where
  "lunch = \<lparr>tb_amount = Some ''12.50'', tb_description = Some ''Lunch'',
            tb_transactionDate = Some ''2024-03-05'', tb_type = Some ''EXPENSE'',
            tb_categoryId = Some ''4'', tb_notes = None\<rparr>"





text \<open>
  The store with two transactions of the first user in March 2024 only: an income of
  0.30 and an expense of 0.10.
\<close>

definition pennies :: db where
  "pennies = ledger\<lparr>transactions := [pay\<lparr>t_amount := 30\<rparr>, novel\<lparr>t_amount := 10\<rparr>]\<rparr>"

section \<open>Properties\<close>

subsection \<open>Evaluation and the lookup of a row by its key\<close>

lemmas num_defs = sql_num_def scan_decimal_def scan_exponent_def is_digit_def is_space_def
  digits_val_def digit_val_def signed_def sql_eq_def toNumber_def trim_def scale10_def
  radix_digit_def radix_val_def parseInt_def sql_numeric_def

lemmas ledger_defs = ledger_def alice_def bob_def salary_def shopping_def books_def gifts_def
  pay_def novel_def shoes_def present_def

lemmas cat_eval = updateCategory_def deleteCategory_def categoryValidation_def isLength_def
  isIn_def kind_of_def str_def matches_color_def visible_def or_null_def or_else_def

lemma set_insert_by: "set (insert_by le x xs) = insert x (set xs)"
  by (induction xs) auto

lemma set_order_by: "set (order_by le xs) = set xs"
  by (induction xs) (simp_all add: order_by_def set_insert_by)

lemma filter_key_distinct:
  assumes "distinct (map f xs)" and "x \<in> set xs"
  shows "filter (\<lambda>y. f y = f x) xs = [x]"
  using assms
proof (induction xs)
  case Nil
  then show ?case by simp
next
  case (Cons a xs)
  show ?case
  proof (cases "a = x")
    case True
    with Cons.prems have "\<forall>y\<in>set xs. f y \<noteq> f x"
      by (metis distinct.simps(2) image_eqI list.simps(9) set_map)
    then have "filter (\<lambda>y. f y = f x) xs = []" by (simp add: filter_empty_conv)
    with True show ?thesis by simp
  next
    case False
    with Cons.prems have "x \<in> set xs" and "f a \<noteq> f x" by auto
    with Cons show ?thesis by simp
  qed
qed

lemma sql_eq_same:
  assumes "sql_eq n s"
  shows "sql_eq m s = (m = n)"
  using assms by (auto simp: sql_eq_def)

lemma category_by_id:
  assumes "distinct (map c_id (categories d))" and "c \<in> set (categories d)"
      and "sql_eq (c_id c) idp"
  shows "filter (\<lambda>x. sql_eq (c_id x) idp) (categories d) = [c]"
  using filter_key_distinct [OF assms(1,2)] by (simp add: sql_eq_same [OF assms(3)])

subsection \<open>Rounding to a double\<close>

lemma floor_rat_numeral: "\<lfloor>(numeral a :: rat) / numeral b\<rfloor> = numeral a div numeral b"
  by (metis floor_divide_of_int_eq of_int_numeral)

lemma pow2_powi: "pow2 k = 2 powi k"
  unfolding pow2_def power_int_def by (simp only: inverse_eq_divide power_one_over)

lemma pow2_add: "pow2 (a + b) = pow2 a * pow2 b"
  unfolding pow2_powi by (rule power_int_add) simp

lemma pow2_pos: "0 < pow2 k"
  unfolding pow2_powi by (rule zero_less_power_int) simp

lemma pow2_mono: "a \<le> b \<Longrightarrow> pow2 a \<le> pow2 b"
  unfolding pow2_powi by (rule power_int_increasing) simp_all

lemma pow2_nat: "0 \<le> k \<Longrightarrow> pow2 k = of_int (2 ^ nat k)"
  by (simp add: pow2_def)

lemma half_even_of_int: "half_even (of_int k) = k"
  by (simp add: half_even_def)

lemma bitlen_pow2:
  assumes "0 < a"
  shows "pow2 (bitlen a - 1) \<le> of_int a" and "of_int a < pow2 (bitlen a)"
proof -
  have n: "0 \<le> bitlen a - 1"
    using assms bitlen_nonneg [of a] by (simp add: bitlen_alt_def)
  have "(of_int (2 ^ nat (bitlen a - 1)) :: rat) \<le> of_int a"
    using bitlen_bounds [OF assms] by (simp only: of_int_le_iff)
  then show "pow2 (bitlen a - 1) \<le> of_int a" using n by (simp only: pow2_nat)
  have "(of_int a :: rat) < of_int (2 ^ nat (bitlen a))"
    using bitlen_bounds [OF assms] by (simp only: of_int_less_iff)
  then show "of_int a < pow2 (bitlen a)" using bitlen_nonneg [of a] by (simp only: pow2_nat)
qed

text \<open>
  The bit lengths of numerator and denominator place a positive rational between two
  powers of two that are two exponents apart.
\<close>

lemma exponent_bounds:
  assumes "0 < x" and "quotient_of x = (a, b)" and "k = bitlen a - bitlen b"
  shows "pow2 (k - 1) \<le> x" and "x < pow2 (k + 1)"
proof -
  have b: "0 < b" using assms(2) by (rule quotient_of_denom_pos)
  have x: "x = of_int a / of_int b" using assms(2) by (rule quotient_of_div)
  have a: "0 < a" using assms(1) b x by (simp add: zero_less_divide_iff)
  have bq: "(0::rat) < of_int b" using b by simp
  have "pow2 (k - 1) * of_int b \<le> pow2 (k - 1) * pow2 (bitlen b)"
    using bitlen_pow2(2) [OF b] pow2_pos [of "k - 1"] by (simp add: less_imp_le)
  also have "\<dots> = pow2 (bitlen a - 1)"
    using pow2_add [of "k - 1" "bitlen b"] by (simp add: assms(3))
  also have "\<dots> \<le> of_int a" using bitlen_pow2(1) [OF a] .
  finally show "pow2 (k - 1) \<le> x" using bq by (simp add: x pos_le_divide_eq)
  have "of_int a < pow2 (bitlen a)" using bitlen_pow2(2) [OF a] .
  also have "\<dots> = pow2 (k + 1) * pow2 (bitlen b - 1)"
    using pow2_add [of "k + 1" "bitlen b - 1"] by (simp add: assms(3))
  also have "\<dots> \<le> pow2 (k + 1) * of_int b"
    using bitlen_pow2(1) [OF b] pow2_pos [of "k + 1"] by simp
  finally show "x < pow2 (k + 1)" using bq by (simp add: x pos_divide_less_eq)
qed

text \<open>
  So \<open>exponent64\<close> is what its description says: for \<open>x\<close> from \<open>2 ^ l\<close> up to
  \<open>2 ^ (l + 1)\<close> the last mantissa bit has exponent \<open>l - 52\<close>, or -1074 for the
  subnormal numbers.
\<close>

lemma exponent64_eq:
  assumes "pow2 l \<le> x" and "x < pow2 (l + 1)"
  shows "exponent64 x = max (l - 52) (- 1074)"
proof -
  have pos: "0 < x" using pow2_pos [of l] assms(1) by simp
  obtain a b where q: "quotient_of x = (a, b)" by (cases "quotient_of x")
  define k where "k = bitlen a - bitlen b"
  note bb = exponent_bounds [OF pos q k_def]
  define l' where "l' = (if pow2 k \<le> x then k else k - 1)"
  have lo: "pow2 l' \<le> x" using bb(1) by (simp add: l'_def)
  have hi: "x < pow2 (l' + 1)" using bb(2) by (simp add: l'_def not_le)
  have "\<not> l' < l"
  proof
    assume "l' < l"
    then have "pow2 (l' + 1) \<le> pow2 l" by (intro pow2_mono) simp
    with hi assms(1) show False by simp
  qed
  moreover have "\<not> l < l'"
  proof
    assume "l < l'"
    then have "pow2 (l + 1) \<le> pow2 l'" by (intro pow2_mono) simp
    with lo assms(2) show False by simp
  qed
  ultimately have "l' = l" by simp
  then show ?thesis by (simp add: exponent64_def q k_def [symmetric] l'_def [symmetric])
qed

lemma round64_eq:
  assumes "pow2 l \<le> x" and "x < pow2 (l + 1)" and "e = max (l - 52) (- 1074)"
      and "half_even (x / pow2 e) = m" and "of_int m * pow2 e = v" and "v < pow2 1024"
  shows "round64 x = Num v" and "round64 (- x) = Num (- v)"
proof -
  have pos: "0 < x" using pow2_pos [of l] assms(1) by simp
  have e: "exponent64 x = e" using assms(1,2,3) by (simp add: exponent64_eq)
  show "round64 x = Num v"
    using pos assms(4,5,6) by (simp add: round64_def e Let_def not_le)
  show "round64 (- x) = Num (- v)"
    using pos assms(4,5,6) by (simp add: round64_def e Let_def not_le)
qed

lemma round64_0: "round64 0 = Num 0"
  by (simp add: round64_def)

text \<open>A natural number below \<open>2 ^ 53\<close> is a double.\<close>

lemma round64_nat:
  assumes "n < 2 ^ 53"
  shows "round64 (of_nat n) = Num (of_nat n)"
proof (cases "n = 0")
  case True
  then show ?thesis by (simp add: round64_def)
next
  case False
  then have pos: "0 < int n" by simp
  define k where "k = bitlen (int n) - 1"
  have "bitlen (int n) \<le> 53" using assms less_power_nat_iff_bitlen [of n 53] by simp
  then have k52: "k \<le> 52" by (simp add: k_def)
  have lo: "pow2 k \<le> of_nat n"
    using bitlen_pow2(1) [OF pos] by (simp add: k_def)
  have hi: "of_nat n < pow2 (k + 1)"
    using bitlen_pow2(2) [OF pos] by (simp add: k_def)
  define M where "M = int n * 2 ^ nat (52 - k)"
  have split: "pow2 (52 - k) * pow2 (k - 52) = 1"
  proof -
    have "pow2 (52 - k + (k - 52)) = 1" by (simp add: pow2_def)
    then show ?thesis by (simp only: pow2_add)
  qed
  have M: "(of_int M :: rat) = of_nat n * pow2 (52 - k)"
    using k52 by (simp add: pow2_nat M_def)
  have "of_nat n / pow2 (k - 52) = of_nat n * pow2 (52 - k)"
    using split pow2_pos [of "k - 52"] by (simp add: field_simps)
  then have m: "half_even (of_nat n / pow2 (k - 52)) = M"
    by (simp only: M [symmetric] half_even_of_int)
  have v: "of_int M * pow2 (k - 52) = (of_nat n :: rat)"
    by (simp only: M mult.assoc split mult_1_right)
  have small: "(of_nat n :: rat) < pow2 1024"
  proof -
    have "(of_nat n :: rat) < of_nat (2 ^ 53)" using assms by (simp only: of_nat_less_iff)
    also have "\<dots> \<le> pow2 1024" by (simp add: pow2_def)
    finally show ?thesis .
  qed
  have e: "k - 52 = max (k - 52) (- 1074)"
    using bitlen_nonneg [of "int n"] by (simp add: k_def)
  show ?thesis
    by (rule round64_eq(1) [OF lo hi e m v small])
qed

lemma round64_numeral:
  "numeral k < (2::nat) ^ 53 \<Longrightarrow> round64 (numeral k) = Num (numeral k)"
  using round64_nat [of "numeral k"] by simp

text \<open>The doubles the examples meet.\<close>

lemma double_0_30: "round64 (3 / 10) = Num (5404319552844595 / 18014398509481984)"
  by (rule round64_eq(1) [where l = "- 2" and e = "- 54" and m = 5404319552844595])
    (simp_all add: pow2_def half_even_def floor_rat_numeral Let_def)

lemma double_0_10: "round64 (1 / 10) = Num (3602879701896397 / 36028797018963968)"
  by (rule round64_eq(1) [where l = "- 4" and e = "- 56" and m = 7205759403792794])
    (simp_all add: pow2_def half_even_def floor_rat_numeral Let_def)

lemma double_0_20: "round64 (1 / 5) = Num (3602879701896397 / 18014398509481984)"
  by (rule round64_eq(1) [where l = "- 3" and e = "- 55" and m = 7205759403792794])
    (simp_all add: pow2_def half_even_def floor_rat_numeral Let_def)

text \<open>The difference of the doubles of 0.30 and 0.10 is a double itself, and not that of 0.20.\<close>

lemma double_0_30_minus_0_10:
  "(5404319552844595 / 18014398509481984 - 3602879701896397 / 36028797018963968 :: rat)
   = 7205759403792793 / 36028797018963968"
  "round64 (7205759403792793 / 36028797018963968)
   = Num (7205759403792793 / 36028797018963968)"
  by simp
    (rule round64_eq(1) [where l = "- 3" and e = "- 55" and m = 7205759403792793],
     simp_all add: pow2_def half_even_def floor_rat_numeral Let_def)

lemma double_12_5: "round64 (25 / 2) = Num (25 / 2)"
  by (rule round64_eq(1) [where l = 3 and e = "- 49" and m = 7036874417766400])
    (simp_all add: pow2_def half_even_def floor_rat_numeral Let_def)

lemma double_2487_5: "round64 (4975 / 2) = Num (4975 / 2)"
  by (rule round64_eq(1) [where l = 11 and e = "- 41" and m = 5470070348185600])
    (simp_all add: pow2_def half_even_def floor_rat_numeral Let_def)



lemma parseFloat_0: "parseFloat 0 = Num 0"
  by (simp add: parseFloat_def round64_0)

subsection \<open>Decimal route parameters\<close>

lemma digit_char_props:
  assumes "k < 10"
  shows "is_digit (digit_char k)" and "digit_val (digit_char k) = k"
    and "\<not> is_space (digit_char k)"
    and "digit_char k \<noteq> CHR ''-''" and "digit_char k \<noteq> CHR ''+''"
    and "radix_digit 10 (digit_char k) = Some k"
proof -
  from assms have "k \<in> {0, 1, 2, 3, 4, 5, 6, 7, 8, 9}" by auto
  then show "is_digit (digit_char k)" and "digit_val (digit_char k) = k"
    and "\<not> is_space (digit_char k)"
    and "digit_char k \<noteq> CHR ''-''" and "digit_char k \<noteq> CHR ''+''"
    and "radix_digit 10 (digit_char k) = Some k"
    by (auto simp: digit_char_def digit_val_def is_digit_def is_space_def radix_digit_def)
qed

lemma dec_rec:
  "dec n = (if n < 10 then [digit_char n] else dec (n div 10) @ [digit_char (n mod 10)])"
  unfolding dec_def by (rule digits_of.simps)

lemma dec_induct:
  fixes Q :: "nat \<Rightarrow> bool"
  assumes step: "\<And>n. (\<not> n < 10 \<Longrightarrow> Q (n div 10)) \<Longrightarrow> Q n"
  shows "Q m"
proof (induction m rule: digits_of.induct)
  case (1 n)
  then show ?case by (rule step)
qed

lemma dec_digits: "list_all is_digit (dec n)"
proof (induction n rule: dec_induct)
  case (1 n)
  then show ?case by (subst dec_rec) (simp add: digit_char_props)
qed

lemma dec_not_empty: "dec n \<noteq> []"
  by (subst dec_rec) simp

lemma dec_value: "digits_val (dec n) = n"
proof (induction n rule: dec_induct)
  case (1 n)
  show ?case
  proof (cases "n < 10")
    case True
    then show ?thesis by (subst dec_rec) (simp add: digits_val_def digit_char_props)
  next
    case False
    with 1 have "digits_val (dec (n div 10)) = n div 10" by simp
    with False show ?thesis
      by (subst dec_rec) (simp add: digits_val_def digit_char_props)
  qed
qed

lemma dec_radix_value: "radix_val 10 (dec n) = n"
proof (induction n rule: dec_induct)
  case (1 n)
  show ?case
  proof (cases "n < 10")
    case True
    then show ?thesis by (subst dec_rec) (simp add: radix_val_def digit_char_props)
  next
    case False
    with 1 have "radix_val 10 (dec (n div 10)) = n div 10" by simp
    with False show ?thesis
      by (subst dec_rec) (simp add: radix_val_def digit_char_props)
  qed
qed

lemma all_digits_scan:
  assumes "list_all is_digit s" and "s \<noteq> []"
  shows "takeWhile is_digit s = s" and "dropWhile is_digit s = []"
    and "dropWhile is_space s = s" and "take_sign s = (False, s)"
    and "trim s = s" and "radix_prefix s = None" and "s \<noteq> ''Infinity''"
    and "takeWhile (\<lambda>c. radix_digit 10 c \<noteq> None) s = s"
proof -
  show "takeWhile is_digit s = s" "dropWhile is_digit s = []"
    using assms(1) by (simp_all add: list_all_iff)
  obtain c r where s: "s = c # r" using assms(2) by (cases s) auto
  have c: "is_digit c" using assms(1) s by simp
  have ns: "\<not> is_space x" if "is_digit x" for x
    using that by (auto simp: is_digit_def is_space_def)
  show lead: "dropWhile is_space s = s" using c ns s by simp
  show "take_sign s = (False, s)" using c s by (auto simp: is_digit_def)
  have "\<not> is_space (last s)"
    using assms ns by (metis last_in_set list_all_iff)
  then have "dropWhile is_space (rev s) = rev s"
    using assms(2) by (cases "rev s") (auto simp: last_rev)
  then show "trim s = s" by (simp add: trim_def lead)
  show "radix_prefix s = None"
  proof (cases r)
    case Nil
    then show ?thesis using s by simp
  next
    case (Cons x r')
    then have "is_digit x" using assms(1) s by simp
    then show ?thesis using s Cons by (auto simp: is_digit_def)
  qed
  show "s \<noteq> ''Infinity''" using c s by (auto simp: is_digit_def)
  have "radix_digit 10 x \<noteq> None" if "is_digit x" for x
    using that by (auto simp: is_digit_def radix_digit_def digit_val_def)
  then show "takeWhile (\<lambda>c. radix_digit 10 c \<noteq> None) s = s"
    using assms(1) by (simp add: list_all_iff)
qed

lemma scan_decimal_digits:
  assumes "list_all is_digit s" and "s \<noteq> []"
  shows "scan_decimal s = Some (of_nat (digits_val s), [])"
  using assms by (simp add: scan_decimal_def all_digits_scan digits_val_def)

lemma sql_num_dec: "sql_num (dec n) = of_nat n"
  by (simp add: sql_num_def all_digits_scan [OF dec_digits dec_not_empty]
      scan_decimal_digits [OF dec_digits dec_not_empty] scan_exponent_def signed_def dec_value)


lemma toNumber_dec: "toNumber (dec n) = round64 (of_nat n)"
  by (simp add: toNumber_def all_digits_scan [OF dec_digits dec_not_empty] dec_not_empty
      scan_decimal_digits [OF dec_digits dec_not_empty] signed_def dec_value)

lemma toNumber_month:
  assumes "M \<le> 12"
  shows "toNumber (dec M) = Num (of_nat M)"
proof -
  have "M < 2 ^ 53" using assms by simp
  then show ?thesis by (simp add: toNumber_dec round64_nat)
qed

lemma parseInt_dec: "parseInt (dec n) = Some (int n)"
  by (simp add: parseInt_def all_digits_scan [OF dec_digits dec_not_empty] dec_not_empty
      dec_radix_value del: not_None_eq)

lemma js_int_dec: "js_int (parseInt (dec n)) = round64 (of_nat n)"
  by (simp add: js_int_def parseInt_dec)

text \<open>
  Where the rounding shows: a month of seventeen nines after the point is the number 1
  to the month check, and a year above \<open>2 ^ 53\<close> comes back as its even neighbour.
\<close>

lemma toNumber_rounds: "toNumber ''0.99999999999999999'' = Num 1"
proof -
  have "toNumber ''0.99999999999999999'' = round64 (99999999999999999 / 100000000000000000)"
    by (simp add: num_defs)
  also have "\<dots> = Num 1"
    by (rule round64_eq(1) [where l = "- 1" and e = "- 53" and m = 9007199254740992])
      (simp_all add: pow2_def half_even_def floor_rat_numeral Let_def)
  finally show ?thesis .
qed

lemma js_int_rounds: "js_int (parseInt ''9007199254740993'') = Num 9007199254740992"
proof -
  have "js_int (parseInt ''9007199254740993'') = round64 9007199254740993"
    by (simp add: js_int_def num_defs)
  also have "\<dots> = Num 9007199254740992"
    by (rule round64_eq(1) [where l = 53 and e = 1 and m = 4503599627370496])
      (simp_all add: pow2_def half_even_def floor_rat_numeral Let_def)
  finally show ?thesis .
qed

lemma dec_2024: "dec 2024 = ''2024''" "dec 3 = ''3''" "dec 12 = ''12''"
  by (simp_all add: dec_def digit_char_def)

subsection \<open>Monthly summary\<close>

lemma in_month_numeric:
  assumes "sql_num year = of_nat Y" and "sql_num month = of_nat M"
  shows "in_month year month t
         = (d_year (t_transaction_date t) = Y \<and> d_month (t_transaction_date t) = M)"
  using assms by (simp add: in_month_def sql_eq_def)

lemma valid_year_month:
  assumes "year \<noteq> []" and "toNumber month = Num (of_nat M)" and "1 \<le> M" and "M \<le> 12"
  shows "\<not> invalid_year_month year month"
proof -
  have "month \<noteq> []"
  proof
    assume "month = []"
    then have "toNumber month = Num 0" by (simp add: toNumber_def trim_def)
    with assms(2,3) show False by simp
  qed
  moreover have "\<not> js_lt (toNumber month) 1" using assms(2,3) by simp
  moreover have "\<not> js_gt (toNumber month) 12" using assms(2,4) by (simp add: not_less)
  ultimately show ?thesis using assms(1) by (simp add: invalid_year_month_def)
qed

lemma summary_numeric:
  assumes "year \<noteq> []" and "sql_num year = of_nat Y"
      and "toNumber month = Num (of_nat M)" and "sql_num month = of_nat M"
      and "1 \<le> M" and "M \<le> 12"
  shows "getSummary d uid year month
         = (let income = parseFloat (\<Sum>t\<leftarrow>filter (\<lambda>t. t_user_id t = uid \<and> t_type t = INCOME
                                    \<and> d_year (t_transaction_date t) = Y
                                    \<and> d_month (t_transaction_date t) = M) (transactions d).
                          t_amount t);
                expense = parseFloat (\<Sum>t\<leftarrow>filter (\<lambda>t. t_user_id t = uid \<and> t_type t = EXPENSE
                                    \<and> d_year (t_transaction_date t) = Y
                                    \<and> d_month (t_transaction_date t) = M) (transactions d).
                          t_amount t)
            in Json 200 \<lparr>s_income = income, s_expense = expense,
                         s_balance = js_minus income expense,
                         s_year = js_int (parseInt year), s_month = js_int (parseInt month)\<rparr>)"
proof -
  have v: "\<not> invalid_year_month year month"
    using assms(1,3,5,6) by (rule valid_year_month)
  have m: "\<And>t. in_month year month t
         = (d_year (t_transaction_date t) = Y \<and> d_month (t_transaction_date t) = M)"
    using assms(2,4) by (rule in_month_numeric)
  show ?thesis
    using v by (simp add: getSummary_def month_total_def m Let_def)
qed

text \<open>
  C1, amended. For every user, every year \<open>Y\<close> and every month \<open>M\<close> from 1 to 12,
  written in decimal digits into the path, the summary is: income, the double nearest to
  the exact sum of the amounts of the user's INCOME transactions dated in year \<open>Y\<close>,
  month \<open>M\<close>; expense, the same over the EXPENSE transactions; balance, the
  difference of these two doubles, rounded to a double again. All three are 0 when the
  user has no transaction in that month. The response repeats the month, and the year as
  the double nearest to it, which is the year itself below \<open>2 ^ 53\<close>.
\<close>

theorem summary_sums:
  assumes "1 \<le> M" and "M \<le> 12"
  shows "\<exists>income expense.
           getSummary d uid (dec Y) (dec M)
             = Json 200 \<lparr>s_income = parseFloat income, s_expense = parseFloat expense,
                          s_balance = js_minus (parseFloat income) (parseFloat expense),
                          s_year = round64 (of_nat Y), s_month = Num (of_nat M)\<rparr>
           \<and> income = (\<Sum>t\<leftarrow>filter (\<lambda>t. t_user_id t = uid \<and> t_type t = INCOME
                                    \<and> d_year (t_transaction_date t) = Y
                                    \<and> d_month (t_transaction_date t) = M) (transactions d).
                          t_amount t)
           \<and> expense = (\<Sum>t\<leftarrow>filter (\<lambda>t. t_user_id t = uid \<and> t_type t = EXPENSE
                                    \<and> d_year (t_transaction_date t) = Y
                                    \<and> d_month (t_transaction_date t) = M) (transactions d).
                          t_amount t)
           \<and> (Y < 2 ^ 53 \<longrightarrow> round64 (of_nat Y) = Num (of_nat Y))
           \<and> (list_all (\<lambda>t. \<not> (t_user_id t = uid \<and> d_year (t_transaction_date t) = Y
                                    \<and> d_month (t_transaction_date t) = M)) (transactions d)
                \<longrightarrow> parseFloat income = Num 0 \<and> parseFloat expense = Num 0
                    \<and> js_minus (parseFloat income) (parseFloat expense) = Num 0)"
proof -
  define income where
    "income = (\<Sum>t\<leftarrow>filter (\<lambda>t. t_user_id t = uid \<and> t_type t = INCOME
                                    \<and> d_year (t_transaction_date t) = Y
                                    \<and> d_month (t_transaction_date t) = M) (transactions d).
                          t_amount t)"
  define expense where
    "expense = (\<Sum>t\<leftarrow>filter (\<lambda>t. t_user_id t = uid \<and> t_type t = EXPENSE
                                    \<and> d_year (t_transaction_date t) = Y
                                    \<and> d_month (t_transaction_date t) = M) (transactions d).
                          t_amount t)"
  have yr: "js_int (parseInt (dec Y)) = round64 (of_nat Y)" by (rule js_int_dec)
  have mo: "js_int (parseInt (dec M)) = Num (of_nat M)"
  proof -
    have "M < 2 ^ 53" using assms(2) by simp
    then show ?thesis by (simp add: js_int_dec round64_nat)
  qed
  have g: "getSummary d uid (dec Y) (dec M)
             = Json 200 \<lparr>s_income = parseFloat income, s_expense = parseFloat expense,
                          s_balance = js_minus (parseFloat income) (parseFloat expense),
                          s_year = round64 (of_nat Y), s_month = Num (of_nat M)\<rparr>"
    using summary_numeric [OF dec_not_empty sql_num_dec toNumber_month [OF assms(2)]
        sql_num_dec assms, of d uid Y]
    by (simp only: Let_def yr mo income_def expense_def)
  have z: "filter (\<lambda>t. t_user_id t = uid \<and> t_type t = k
                                    \<and> d_year (t_transaction_date t) = Y
                                    \<and> d_month (t_transaction_date t) = M) (transactions d) = []"
    if "list_all (\<lambda>t. \<not> (t_user_id t = uid \<and> d_year (t_transaction_date t) = Y
                                    \<and> d_month (t_transaction_date t) = M)) (transactions d)"
    for k
    using that by (auto simp: list_all_iff filter_empty_conv)
  have zz: "parseFloat income = Num 0 \<and> parseFloat expense = Num 0
            \<and> js_minus (parseFloat income) (parseFloat expense) = Num 0"
    if "list_all (\<lambda>t. \<not> (t_user_id t = uid \<and> d_year (t_transaction_date t) = Y
                                    \<and> d_month (t_transaction_date t) = M)) (transactions d)"
    by (simp add: income_def expense_def z [OF that] parseFloat_0 round64_0)
  have y53: "Y < 2 ^ 53 \<longrightarrow> round64 (of_nat Y) = Num (of_nat Y)"
    by (simp add: round64_nat)
  have "getSummary d uid (dec Y) (dec M)
             = Json 200 \<lparr>s_income = parseFloat income, s_expense = parseFloat expense,
                          s_balance = js_minus (parseFloat income) (parseFloat expense),
                          s_year = round64 (of_nat Y), s_month = Num (of_nat M)\<rparr>
        \<and> (Y < 2 ^ 53 \<longrightarrow> round64 (of_nat Y) = Num (of_nat Y))
        \<and> (list_all (\<lambda>t. \<not> (t_user_id t = uid \<and> d_year (t_transaction_date t) = Y
                                    \<and> d_month (t_transaction_date t) = M)) (transactions d)
                \<longrightarrow> parseFloat income = Num 0 \<and> parseFloat expense = Num 0
                    \<and> js_minus (parseFloat income) (parseFloat expense) = Num 0)"
    using g zz y53 by blast
  then show ?thesis
    unfolding income_def expense_def by blast
qed

lemma parseFloat_2500: "parseFloat 250000 = Num 2500"
  by (simp add: parseFloat_def round64_numeral)

lemma parseFloat_12_5: "parseFloat 1250 = Num (25 / 2)"
  using double_12_5 by (simp add: parseFloat_def)

theorem summary_sums_witness:
  "getSummary ledger 1 ''2024'' ''3''
     = Json 200 \<lparr>s_income = Num 2500, s_expense = Num (25 / 2), s_balance = Num (4975 / 2),
                  s_year = Num 2024, s_month = Num 3\<rparr>
   \<and> getSummary ledger 1 ''2024'' ''12''
     = Json 200 \<lparr>s_income = Num 0, s_expense = Num 0, s_balance = Num 0,
                  s_year = Num 2024, s_month = Num 12\<rparr>"
proof -
  have a: "(1::nat) \<le> 3" "(3::nat) \<le> 12" "(1::nat) \<le> 12" "(12::nat) \<le> 12" by simp_all
  from summary_sums [OF a(1,2), of ledger 1 2024] summary_sums [OF a(3,4), of ledger 1 2024]
  show ?thesis
    by (simp add: dec_2024 ledger_defs round64_numeral parseFloat_2500 parseFloat_12_5
        double_2487_5 parseFloat_0 round64_0)
qed

text \<open>
  C1 as stated fails: with an income of 0.30 and an expense of 0.10 in March 2024 the
  exact sums are 0.30 and 0.10 and their difference is 0.20, but the balance of the
  response is the difference of two doubles, 0.19999999999999998, one unit in the last
  place below the double that 0.20 reads as.
\<close>

theorem summary_balance_inexact:
  "month_total pennies 1 INCOME ''2024'' ''3'' = 30
   \<and> month_total pennies 1 EXPENSE ''2024'' ''3'' = 10
   \<and> getSummary pennies 1 ''2024'' ''3''
     = Json 200 \<lparr>s_income = Num (5404319552844595 / 18014398509481984),
                  s_expense = Num (3602879701896397 / 36028797018963968),
                  s_balance = Num (7205759403792793 / 36028797018963968),
                  s_year = Num 2024, s_month = Num 3\<rparr>
   \<and> parseFloat 20 = Num (3602879701896397 / 18014398509481984)
   \<and> Num (7205759403792793 / 36028797018963968) \<noteq> parseFloat 20
   \<and> Num (7205759403792793 / 36028797018963968) \<noteq> Num (1 / 5)"
proof -
  have i: "month_total pennies 1 INCOME ''2024'' ''3'' = 30"
    and e: "month_total pennies 1 EXPENSE ''2024'' ''3'' = 10"
    by (simp_all add: month_total_def in_month_def pennies_def ledger_defs num_defs)
  have m: "\<not> invalid_year_month ''2024'' ''3''"
    using valid_year_month [of "dec 2024" "dec 3" 3] toNumber_month [of 3]
    by (simp add: dec_2024)
  have p30: "parseFloat 30 = Num (5404319552844595 / 18014398509481984)"
    using double_0_30 by (simp add: parseFloat_def)
  have p10: "parseFloat 10 = Num (3602879701896397 / 36028797018963968)"
    using double_0_10 by (simp add: parseFloat_def)
  have p20: "parseFloat 20 = Num (3602879701896397 / 18014398509481984)"
    using double_0_20 by (simp add: parseFloat_def)
  have y: "js_int (parseInt ''2024'') = Num 2024" "js_int (parseInt ''3'') = Num 3"
    using js_int_dec [of 2024] js_int_dec [of 3] by (simp_all add: dec_2024 round64_numeral)
  have "getSummary pennies 1 ''2024'' ''3''
     = Json 200 \<lparr>s_income = Num (5404319552844595 / 18014398509481984),
                  s_expense = Num (3602879701896397 / 36028797018963968),
                  s_balance = Num (7205759403792793 / 36028797018963968),
                  s_year = Num 2024, s_month = Num 3\<rparr>"
    using m i e by (simp add: getSummary_def p30 p10 y double_0_30_minus_0_10 Let_def)
  then show ?thesis using i e by (simp add: p20)
qed


subsection \<open>The month check\<close>

lemma month_out_of_range_rejected:
  assumes "toNumber month = Num (of_int k)" and "k < 1 \<or> 12 < k"
  shows "getMonthly d uid year month = Error 400 ''Invalid year or month''"
    and "getSummary d uid year month = Error 400 ''Invalid year or month''"
  using assms by (auto simp: getMonthly_def getSummary_def invalid_year_month_def)

lemma month_nan_accepted:
  assumes "year \<noteq> []" and "month \<noteq> []" and "toNumber month = NaN"
  shows "status (getMonthly d uid year month) = 200"
    and "status (getSummary d uid year month) = 200"
  using assms by (auto simp: getMonthly_def getSummary_def invalid_year_month_def Let_def)

text \<open>
  C8. The claim is that a month outside 1 to 12 is refused with status 400. The check
  \<^verbatim>\<open>month < 1 || month > 12\<close> compares a string with numbers: for a month that is
  not a number at all, such as \<^verbatim>\<open>abc\<close>, both comparisons are false, the request
  passes, and both routes answer with status 200: the monthly list is empty, the
  summary is all zeros and echoes \<^verbatim>\<open>parseInt\<close> of the month, NaN.
\<close>

theorem month_not_a_number_is_served:
  "getMonthly ledger 1 ''2024'' ''abc'' = Json 200 []
   \<and> getSummary ledger 1 ''2024'' ''abc''
       = Json 200 \<lparr>s_income = Num 0, s_expense = Num 0, s_balance = Num 0,
                    s_year = Num 2024, s_month = NaN\<rparr>"
  by (simp add: getMonthly_def getSummary_def invalid_year_month_def month_total_def
      in_month_def joined_def order_by_def ledger_defs num_defs Let_def js_int_def
      parseFloat_0 round64_0 round64_numeral)

subsection \<open>Default categories\<close>

lemma update_default_refused:
  assumes "c \<in> set (categories d)" and "c_is_default c"
      and "distinct (map c_id (categories d))" and "sql_eq (c_id c) idp"
  shows "updateCategory now d uid idp b
         = (if categoryValidation b then Error 403 ''Cannot modify this category''
            else Error 400 ''Validation failed'', d)"
  using assms(2) by (simp add: updateCategory_def category_by_id [OF assms(3,1,4)])

lemma delete_default_refused:
  assumes "c \<in> set (categories d)" and "c_is_default c"
      and "distinct (map c_id (categories d))" and "sql_eq (c_id c) idp"
  shows "deleteCategory d uid idp = (Error 403 ''Cannot delete this category'', d)"
  using assms(2) by (simp add: deleteCategory_def category_by_id [OF assms(3,1,4)])

lemma update_keeps_default:
  assumes "c \<in> set (categories d)" and "c_is_default c"
      and "distinct (map c_id (categories d))"
  shows "c \<in> set (categories (snd (updateCategory now d uid idp b)))"
proof (cases "sql_eq (c_id c) idp")
  case True
  then show ?thesis using assms by (simp add: update_default_refused)
next
  case False
  then have "c \<in> (\<lambda>x. if sql_eq (c_id x) idp then g x else x) ` set (categories d)" for g
    using assms(1) by force
  then show ?thesis
    using assms(1)
    by (auto simp: updateCategory_def Let_def split: list.splits option.splits prod.splits)
qed

lemma delete_keeps_default:
  assumes "c \<in> set (categories d)" and "c_is_default c"
      and "distinct (map c_id (categories d))"
  shows "c \<in> set (categories (snd (deleteCategory d uid idp)))"
proof (cases "sql_eq (c_id c) idp")
  case True
  then show ?thesis using assms by (simp add: delete_default_refused)
next
  case False
  then show ?thesis
    using assms(1) by (auto simp: deleteCategory_def split: list.splits)
qed

lemma create_keeps_categories:
  "c \<in> set (categories d) \<Longrightarrow> c \<in> set (categories (snd (createCategory now d uid b)))"
  by (auto simp: createCategory_def Let_def split: list.splits option.splits prod.splits)

lemma transaction_routes_keep_categories:
  "categories (snd (createTransaction P now d uid tb)) = categories d"
  "categories (snd (updateTransaction P now d uid idp tb)) = categories d"
  "categories (snd (deleteTransaction d uid idp)) = categories d"
  by (auto simp: createTransaction_def updateTransaction_def deleteTransaction_def Let_def
      split: list.splits option.splits prod.splits)

lemma kind_of_isIn: "kind_of type = Some k \<Longrightarrow> isIn type"
  by (auto simp: kind_of_def isIn_def split: if_splits)

text \<open>
  C3, amended. A default category is in the list of every user and in the list by type
  for its own type. An update addressed to it leaves the store as it is and is refused
  with status 403 when the request body passes validation, and with status 400 when it
  does not (validation runs before the lookup); a delete addressed to it is refused with
  status 403 and leaves the store as it is. No request to a category or transaction
  route, whatever it addresses, removes or changes the row.
\<close>

theorem default_category_listed_and_immutable:
  assumes "c \<in> set (categories d)" and "c_is_default c"
      and "distinct (map c_id (categories d))"
  shows "(\<exists>cs. getCategories P d uid = Json 200 cs \<and> c \<in> set cs)
       \<and> (\<forall>type. kind_of type = Some (c_type c)
             \<longrightarrow> (\<exists>cs. getCategoriesByType P d uid type = Json 200 cs \<and> c \<in> set cs))
       \<and> (\<forall>idp. sql_eq (c_id c) idp
             \<longrightarrow> updateCategory now d uid idp b
                   = (if categoryValidation b then Error 403 ''Cannot modify this category''
                      else Error 400 ''Validation failed'', d)
                 \<and> deleteCategory d uid idp = (Error 403 ''Cannot delete this category'', d))
       \<and> (\<forall>idp. c \<in> set (categories (snd (updateCategory now d uid idp b)))
                \<and> c \<in> set (categories (snd (deleteCategory d uid idp))))
       \<and> c \<in> set (categories (snd (createCategory now d uid b)))
       \<and> categories (snd (createTransaction P now d uid tb)) = categories d
       \<and> (\<forall>idp. categories (snd (updateTransaction P now d uid idp tb)) = categories d
                \<and> categories (snd (deleteTransaction d uid idp)) = categories d)"
proof -
  have v: "visible uid c" using assms(2) by (simp add: visible_def)
  have l: "\<exists>cs. getCategories P d uid = Json 200 cs \<and> c \<in> set cs"
    using assms(1) v by (simp add: getCategories_def set_order_by)
  have t: "\<exists>cs. getCategoriesByType P d uid type = Json 200 cs \<and> c \<in> set cs"
    if "kind_of type = Some (c_type c)" for type
    using assms(1) v that kind_of_isIn [OF that]
    by (simp add: getCategoriesByType_def set_order_by)
  show ?thesis
    using l t assms
    by (simp add: update_default_refused delete_default_refused update_keeps_default
        delete_keeps_default create_keeps_categories transaction_routes_keep_categories)
qed


theorem default_category_listed_and_immutable_witness:
  "salary \<in> set (categories ledger) \<and> c_is_default salary
   \<and> getCategories plain ledger 2 = Json 200 [gifts, salary, shopping]
   \<and> getCategoriesByType plain ledger 2 ''INCOME'' = Json 200 [salary]
   \<and> updateCategory 20 ledger 2 ''1''
        \<lparr>cb_name = Some ''Wages'', cb_description = None, cb_color = None, cb_type = Some ''INCOME''\<rparr>
       = (Error 403 ''Cannot modify this category'', ledger)
   \<and> deleteCategory ledger 2 ''1'' = (Error 403 ''Cannot delete this category'', ledger)"
proof -
  have a: "salary \<in> set (categories ledger)" by (simp add: ledger_def)
  have b: "c_is_default salary" by (simp add: salary_def)
  have c: "distinct (map c_id (categories ledger))" by (simp add: ledger_defs)
  have e: "sql_eq (c_id salary) ''1''" by (simp add: salary_def num_defs)
  have k: "kind_of ''INCOME'' = Some (c_type salary)" by (simp add: kind_of_def salary_def)
  have v: "categoryValidation \<lparr>cb_name = Some ''Wages'', cb_description = None, cb_color = None, cb_type = Some ''INCOME''\<rparr>"
    by (simp add: cat_eval)
  have l: "getCategories plain ledger 2 = Json 200 [gifts, salary, shopping]"
    by (simp add: getCategories_def order_by_def plain_def cat_eval ledger_defs)
  have t: "getCategoriesByType plain ledger 2 ''INCOME'' = Json 200 [salary]"
    by (simp add: getCategoriesByType_def order_by_def plain_def cat_eval ledger_defs)
  from default_category_listed_and_immutable [OF a b c, of plain 2 20
      "\<lparr>cb_name = Some ''Wages'', cb_description = None, cb_color = None, cb_type = Some ''INCOME''\<rparr>"]
  show ?thesis using a b e k v l t by simp
qed

text \<open>
  C3 as stated fails: an update of a default category whose body does not pass
  validation (here a one-letter name) is answered with status 400, not 403.
\<close>

theorem default_category_update_400:
  "salary \<in> set (categories ledger) \<and> c_is_default salary \<and> c_user_id salary = None
   \<and> sql_eq (c_id salary) ''1''
   \<and> updateCategory 20 ledger 2 ''1''
        \<lparr>cb_name = Some ''W'', cb_description = None, cb_color = None, cb_type = Some ''INCOME''\<rparr>
       = (Error 400 ''Validation failed'', ledger)"
  by (simp add: cat_eval ledger_defs num_defs)


subsection \<open>Deleting a category\<close>

lemma references_by_id:
  assumes "sql_eq n idp"
  shows "filter (\<lambda>t. sql_eq (t_category_id t) idp) ts = filter (\<lambda>t. t_category_id t = n) ts"
  by (simp add: sql_eq_same [OF assms])

lemma others_by_id:
  assumes "sql_eq n idp"
  shows "filter (\<lambda>x. \<not> sql_eq (c_id x) idp) cs = filter (\<lambda>x. c_id x \<noteq> n) cs"
  by (simp add: sql_eq_same [OF assms])

text \<open>
  C2. Let \<open>c\<close> be a category of user \<open>uid\<close> (not a default one) in a store whose
  category ids are distinct, and let the route parameter denote its id. While some
  transaction, of whatever user, references \<open>c\<close>, the delete is refused with status
  400 and the store stays as it is. When no transaction references it, in particular
  in the store obtained by removing every referencing transaction, the delete succeeds
  and removes exactly the row of \<open>c\<close>.
\<close>

theorem delete_category_conflict:
  assumes "c \<in> set (categories d)" and "c_user_id c = Some uid" and "\<not> c_is_default c"
      and "distinct (map c_id (categories d))" and "sql_eq (c_id c) idp"
  shows "(list_ex (\<lambda>t. t_category_id t = c_id c) (transactions d)
            \<longrightarrow> deleteCategory d uid idp
                  = (Error 400 ''Cannot delete category that is being used in transactions'', d))
       \<and> (\<not> list_ex (\<lambda>t. t_category_id t = c_id c) (transactions d)
            \<longrightarrow> deleteCategory d uid idp
                  = (Json 200 ''Category deleted successfully'',
                     d\<lparr>categories := filter (\<lambda>x. c_id x \<noteq> c_id c) (categories d)\<rparr>))
       \<and> (let d' = d\<lparr>transactions := filter (\<lambda>t. t_category_id t \<noteq> c_id c) (transactions d)\<rparr>
          in deleteCategory d' uid idp
               = (Json 200 ''Category deleted successfully'',
                  d'\<lparr>categories := filter (\<lambda>x. c_id x \<noteq> c_id c) (categories d)\<rparr>))
       \<and> c \<notin> set (filter (\<lambda>x. c_id x \<noteq> c_id c) (categories d))"
proof -
  have sel: "filter (\<lambda>x. sql_eq (c_id x) idp) (categories d) = [c]"
    using assms(4,1,5) by (rule category_by_id)
  have del: "deleteCategory e uid idp
      = (if filter (\<lambda>t. t_category_id t = c_id c) (transactions e) \<noteq> []
         then (Error 400 ''Cannot delete category that is being used in transactions'', e)
         else (Json 200 ''Category deleted successfully'',
               e\<lparr>categories := filter (\<lambda>x. c_id x \<noteq> c_id c) (categories e)\<rparr>))"
    if "categories e = categories d" for e
    using assms(2,3) sel that
    by (simp add: deleteCategory_def references_by_id [OF assms(5)] others_by_id [OF assms(5)])
  show ?thesis
    by (simp add: del Let_def list_ex_iff filter_empty_conv)
qed

theorem delete_category_conflict_witness:
  "books \<in> set (categories ledger) \<and> c_user_id books = Some 1 \<and> \<not> c_is_default books
   \<and> list_ex (\<lambda>t. t_category_id t = c_id books) (transactions ledger)
   \<and> deleteCategory ledger 1 ''3''
       = (Error 400 ''Cannot delete category that is being used in transactions'', ledger)
   \<and> deleteCategory (ledger\<lparr>transactions := [pay, shoes, present]\<rparr>) 1 ''3''
       = (Json 200 ''Category deleted successfully'',
          ledger\<lparr>transactions := [pay, shoes, present],
                 categories := [salary, shopping, gifts]\<rparr>)"
proof -
  have a: "books \<in> set (categories ledger)" by (simp add: ledger_def)
  have b: "c_user_id books = Some 1" by (simp add: books_def)
  have c: "\<not> c_is_default books" by (simp add: books_def)
  have e: "distinct (map c_id (categories ledger))" by (simp add: ledger_defs)
  have f: "sql_eq (c_id books) ''3''" by (simp add: books_def num_defs)
  from delete_category_conflict [OF a b c e f]
  show ?thesis using a b c by (simp add: ledger_defs Let_def)
qed

subsection \<open>Updating a category\<close>

text \<open>
  C10. An update of a user's own category whose body passes validation and has no
  description succeeds and stores a null description, whatever the description was;
  the stored colour is the body's colour when there is a non-empty one and otherwise
  the colour the category had, so an omitted colour is kept.
\<close>

theorem update_without_description_clears_it:
  assumes "c \<in> set (categories d)" and "c_user_id c = Some uid" and "\<not> c_is_default c"
      and "distinct (map c_id (categories d))" and "sql_eq (c_id c) idp"
      and "categoryValidation b" and "cb_description b = None"
  shows "\<exists>c'. updateCategory now d uid idp b
                = (Json 200 c',
                   d\<lparr>categories := map (\<lambda>x. if c_id x = c_id c then c' else x) (categories d)\<rparr>)
              \<and> c_id c' = c_id c
              \<and> c_description c' = None
              \<and> c_color c' = or_else (cb_color b) (c_color c)
              \<and> (cb_color b = None \<longrightarrow> c_color c' = c_color c)"
proof -
  have sel: "filter (\<lambda>x. sql_eq (c_id x) idp) (categories d) = [c]"
    using assms(4,1,5) by (rule category_by_id)
  obtain name where n: "cb_name b = Some name"
    using assms(6) by (cases "cb_name b") (auto simp: categoryValidation_def isLength_def str_def)
  obtain k where k: "Option.bind (cb_type b) kind_of = Some k"
    using assms(6)
    by (cases "cb_type b") (auto simp: categoryValidation_def isIn_def str_def kind_of_def)
  define c' where "c' = c\<lparr>c_name := name, c_description := or_null (cb_description b),
      c_color := or_else (cb_color b) (c_color c), c_type := k, c_updated_at := now\<rparr>"
  have m: "map (\<lambda>x. if sql_eq (c_id x) idp
                   then x\<lparr>c_name := name, c_description := or_null (cb_description b),
                          c_color := or_else (cb_color b) (c_color c), c_type := k,
                          c_updated_at := now\<rparr>
                   else x) (categories d)
           = map (\<lambda>x. if c_id x = c_id c then c' else x) (categories d)"
  proof (rule map_cong [OF refl])
    fix x assume x: "x \<in> set (categories d)"
    have "x = c" if "c_id x = c_id c"
      using that x assms(1,4) by (meson distinct_map inj_onD)
    then show "(if sql_eq (c_id x) idp
                   then x\<lparr>c_name := name, c_description := or_null (cb_description b),
                          c_color := or_else (cb_color b) (c_color c), c_type := k,
                          c_updated_at := now\<rparr>
                   else x) = (if c_id x = c_id c then c' else x)"
      by (auto simp: sql_eq_same [OF assms(5)] c'_def)
  qed
  have again: "filter (\<lambda>x. sql_eq (c_id x) idp)
                 (map (\<lambda>x. if c_id x = c_id c then c' else x) (categories d)) = [c']"
  proof -
    have "filter (\<lambda>x. sql_eq (c_id x) idp)
                 (map (\<lambda>x. if c_id x = c_id c then c' else x) (categories d))
          = map (\<lambda>x. if c_id x = c_id c then c' else x)
              (filter (\<lambda>x. sql_eq (c_id x) idp) (categories d))"
      by (induction "categories d") (auto simp: filter_map o_def sql_eq_same [OF assms(5)] c'_def)
    then show ?thesis by (simp add: sel)
  qed
  have "updateCategory now d uid idp b
        = (Json 200 c', d\<lparr>categories := map (\<lambda>x. if c_id x = c_id c then c' else x) (categories d)\<rparr>)"
    using assms(2,3,6,7) sel n k
    by (simp add: updateCategory_def m again Let_def)
  moreover have "c_id c' = c_id c" "c_description c' = None"
    "c_color c' = or_else (cb_color b) (c_color c)"
    by (simp_all add: c'_def or_null_def assms(7))
  moreover have "cb_color b = None \<longrightarrow> c_color c' = c_color c"
    by (simp add: c'_def or_else_def or_null_def)
  ultimately show ?thesis by (intro exI [where x = c']) simp
qed

theorem update_without_description_clears_it_witness:
  "c_description books = Some ''Paper only''
   \<and> updateCategory 20 ledger 1 ''3''
        \<lparr>cb_name = Some ''Reading'', cb_description = None, cb_color = None, cb_type = Some ''EXPENSE''\<rparr>
     = (Json 200 (books\<lparr>c_name := ''Reading'', c_description := None, c_updated_at := 20\<rparr>),
        ledger\<lparr>categories := [salary, shopping,
                 books\<lparr>c_name := ''Reading'', c_description := None, c_updated_at := 20\<rparr>, gifts]\<rparr>)"
proof -
  have a: "books \<in> set (categories ledger)" by (simp add: ledger_def)
  have b: "c_user_id books = Some 1" by (simp add: books_def)
  have c: "\<not> c_is_default books" by (simp add: books_def)
  have e: "distinct (map c_id (categories ledger))" by (simp add: ledger_defs)
  have f: "sql_eq (c_id books) ''3''" by (simp add: books_def num_defs)
  have v: "categoryValidation \<lparr>cb_name = Some ''Reading'', cb_description = None, cb_color = None, cb_type = Some ''EXPENSE''\<rparr>"
    by (simp add: cat_eval)
  from update_without_description_clears_it [OF a b c e f v, of 20]
  show ?thesis
    by (simp add: cat_eval ledger_defs num_defs)
qed


subsection \<open>Transactions and the categories they may use\<close>

lemmas tx_eval = transactionValidation_def isLength_def isIn_def str_def plain_def plain_date_def
  kind_of_def or_null_def accessible_def visible_def bound_values_def sql_bigint_def

lemma accessible_none:
  assumes "list_all (\<lambda>c. \<not> (sql_eq (c_id c) cid \<and> (c_user_id c = Some uid \<or> c_is_default c)))
             (categories d)"
  shows "accessible d uid cid = []"
  using assms by (auto simp: accessible_def visible_def list_all_iff filter_empty_conv)

lemma lunch_valid: "transactionValidation plain lunch"
  by (simp add: tx_eval lunch_def num_defs)


text \<open>
  C4, amended. When the \<^verbatim>\<open>categoryId\<close> of the body matches no category that the
  user owns or that is a default one (no category has that id, or it is another
  user's), a create is refused with status 400 and an update is refused with status 400
  if the body fails validation or the route parameter names a transaction of the user,
  and with status 404 if the body passes validation and the user has no transaction of
  that id. In every case the store is left as it was: no row is inserted or modified.
\<close>

theorem inaccessible_category_refused:
  assumes "tb_categoryId b = Some cid"
      and "list_all (\<lambda>c. \<not> (sql_eq (c_id c) cid \<and> (c_user_id c = Some uid \<or> c_is_default c)))
             (categories d)"
  shows "createTransaction P now d uid b
           = (if transactionValidation P b then Error 400 ''Invalid category''
              else Error 400 ''Validation failed'', d)
       \<and> (\<forall>idp. updateTransaction P now d uid idp b
             = (if \<not> transactionValidation P b then Error 400 ''Validation failed''
                else if list_ex (\<lambda>t. sql_eq (t_id t) idp \<and> t_user_id t = uid) (transactions d)
                then Error 400 ''Invalid category''
                else Error 404 ''Transaction not found'', d))"
proof -
  have a: "accessible d uid cid = []" using assms(2) by (rule accessible_none)
  have e: "(filter p xs = []) = (\<not> list_ex p xs)" for p :: "transaction \<Rightarrow> bool" and xs
    by (simp add: list_ex_iff filter_empty_conv)
  show ?thesis
    using assms(1) a by (simp add: createTransaction_def updateTransaction_def e)
qed

theorem inaccessible_category_refused_witness:
  "createTransaction plain 20 ledger 1 lunch = (Error 400 ''Invalid category'', ledger)
   \<and> createTransaction plain 20 ledger 1 (lunch\<lparr>tb_categoryId := Some ''77''\<rparr>)
       = (Error 400 ''Invalid category'', ledger)
   \<and> updateTransaction plain 20 ledger 1 ''2'' lunch = (Error 400 ''Invalid category'', ledger)"
proof -
  have a: "tb_categoryId lunch = Some ''4''" by (simp add: lunch_def)
  have b: "list_all (\<lambda>c. \<not> (sql_eq (c_id c) ''4'' \<and> (c_user_id c = Some 1 \<or> c_is_default c)))
             (categories ledger)"
    by (simp add: ledger_defs num_defs)
  have a': "tb_categoryId (lunch\<lparr>tb_categoryId := Some ''77''\<rparr>) = Some ''77''" by simp
  have b': "list_all (\<lambda>c. \<not> (sql_eq (c_id c) ''77'' \<and> (c_user_id c = Some 1 \<or> c_is_default c)))
             (categories ledger)"
    by (simp add: ledger_defs num_defs)
  have v': "transactionValidation plain (lunch\<lparr>tb_categoryId := Some ''77''\<rparr>)"
    by (simp add: tx_eval lunch_def num_defs)
  have x: "list_ex (\<lambda>t. sql_eq (t_id t) ''2'' \<and> t_user_id t = 1) (transactions ledger)"
    by (simp add: ledger_defs num_defs)
  from inaccessible_category_refused [OF a b, of plain 20]
    inaccessible_category_refused [OF a' b', of plain 20]
  show ?thesis using lunch_valid v' x by simp
qed

text \<open>
  C4 as stated fails: an update that names no transaction of the user is answered with
  status 404 before the category is looked at, although the body's category is
  another user's.
\<close>

theorem update_missing_transaction_404:
  "tb_categoryId lunch = Some ''4''
   \<and> accessible ledger 1 ''4'' = []
   \<and> transactionValidation plain lunch
   \<and> updateTransaction plain 20 ledger 1 ''99'' lunch
       = (Error 404 ''Transaction not found'', ledger)"
  by (simp add: updateTransaction_def tx_eval lunch_def ledger_defs num_defs)

subsection \<open>Creating a transaction and reading it back\<close>

lemma sql_bigint_of_id:
  assumes "sql_eq n s"
  shows "sql_bigint s = n"
proof -
  have "sql_num s = of_nat n" using assms by (simp add: sql_eq_def)
  then show ?thesis by (simp add: sql_bigint_def)
qed


















subsection \<open>Listing transactions\<close>

lemma date_cases: "date_lt a b \<or> a = b \<or> date_lt b a"
  by (cases a; cases b) (auto simp: date_lt_def)

lemma date_lt_trans: "date_lt a b \<Longrightarrow> date_lt b c \<Longrightarrow> date_lt a c"
  by (auto simp: date_lt_def)

lemma date_lt_irrefl: "\<not> date_lt a a"
  by (simp add: date_lt_def)

lemma newest_first_total: "newest_first x y \<or> newest_first y x"
  using date_cases [of "t_transaction_date (fst x)" "t_transaction_date (fst y)"]
  by (auto simp: newest_first_def)

lemma newest_first_trans:
  assumes "newest_first x y" and "newest_first y z"
  shows "newest_first x z"
  using assms date_lt_trans [of "t_transaction_date (fst z)" "t_transaction_date (fst y)"
      "t_transaction_date (fst x)"]
  by (auto simp: newest_first_def)

lemma sorted_insert_by:
  assumes "sorted_wrt newest_first xs"
  shows "sorted_wrt newest_first (insert_by newest_first x xs)"
  using assms
proof (induction xs)
  case Nil
  then show ?case by simp
next
  case (Cons y ys)
  show ?case
  proof (cases "newest_first x y")
    case True
    then have "\<forall>z\<in>set ys. newest_first x z"
      using Cons.prems newest_first_trans by auto
    with True Cons.prems show ?thesis by simp
  next
    case False
    then have "newest_first y x" using newest_first_total by blast
    with False Cons show ?thesis by (auto simp: set_insert_by)
  qed
qed

lemma sorted_order_by: "sorted_wrt newest_first (order_by newest_first xs)"
proof (induction xs)
  case Nil
  then show ?case by (simp add: order_by_def)
next
  case (Cons x xs)
  then show ?case using sorted_insert_by [of "order_by newest_first xs" x]
    by (simp add: order_by_def)
qed

lemma mset_insert_by: "mset (insert_by le x xs) = add_mset x (mset xs)"
  by (induction xs) auto

lemma mset_order_by: "mset (order_by le xs) = mset xs"
  by (induction xs) (simp_all add: order_by_def mset_insert_by)

lemma joined_with_keys:
  assumes "distinct (map c_id cs)" and "list_all (\<lambda>t. t_category_id t \<in> c_id ` set cs) ts"
  shows "map fst (concat (map (\<lambda>t. map (Pair t) (filter (\<lambda>c. t_category_id t = c_id c) cs)) ts))
         = ts"
  using assms(2)
proof (induction ts)
  case Nil
  then show ?case by simp
next
  case (Cons t ts)
  from Cons.prems obtain c where c: "c \<in> set cs" "t_category_id t = c_id c" by auto
  have "filter (\<lambda>x. c_id c = c_id x) cs = [c]"
    using filter_key_distinct [OF assms(1) c(1)] by (simp add: eq_commute)
  with c Cons show ?case by simp
qed

lemma fst_joined:
  assumes "distinct (map c_id (categories d))"
      and "list_all (\<lambda>t. t_category_id t \<in> c_id ` set (categories d)) (transactions d)"
  shows "map fst (joined d) = transactions d"
  using joined_with_keys [OF assms] by (simp add: joined_def)

text \<open>
  C6, amended. Let \<open>rows\<close> be the user's transactions, each with its category, ordered
  by transaction date descending, then creation time descending (rows that agree in
  both keep their table order). When \<^verbatim>\<open>page\<close> and \<^verbatim>\<open>size\<close> both parse to integers that
  are at least 1, the list route returns exactly the rows at ranks
  \<open>(page - 1) * size + 1\<close> to \<open>page * size\<close>, as far as they exist; when either
  parameter is absent, does not start with a number, or is 0, it returns all rows in
  that order.
\<close>

theorem list_pagination:
  assumes "parseInt qpage = Some p" and "parseInt qsize = Some n"
      and "1 \<le> p" and "1 \<le> n"
      and "distinct (map c_id (categories d))"
      and "list_all (\<lambda>t. t_category_id t \<in> c_id ` set (categories d)) (transactions d)"
  shows "\<exists>rows. sorted_wrt newest_first rows
           \<and> mset (map fst rows) = mset (filter (\<lambda>t. t_user_id t = uid) (transactions d))
           \<and> getTransactions d uid (Some qpage) (Some qsize)
               = Json 200 (map formatTransactionResponse
                   (take (nat n) (drop (nat ((p - 1) * n)) rows)))
           \<and> (\<forall>i < length (take (nat n) (drop (nat ((p - 1) * n)) rows)).
                 take (nat n) (drop (nat ((p - 1) * n)) rows) ! i
                   = rows ! (nat (p - 1) * nat n + i))
           \<and> length (take (nat n) (drop (nat ((p - 1) * n)) rows))
               = min (nat n) (length rows - nat (p - 1) * nat n)
           \<and> (\<forall>q q'. Option.bind q parseInt \<in> {None, Some 0}
                 \<longrightarrow> getTransactions d uid q q' = Json 200 (map formatTransactionResponse rows)
                   \<and> getTransactions d uid q' q = Json 200 (map formatTransactionResponse rows))"
proof -
  define rows where
    "rows = order_by newest_first (filter (\<lambda>(t, c). t_user_id t = uid) (joined d))"
  have off: "nat ((p - 1) * n) = nat (p - 1) * nat n"
    using assms(3,4) by (simp add: nat_mult_distrib)
  have s: "sorted_wrt newest_first rows" by (simp add: rows_def sorted_order_by)
  have "mset (map fst rows) = mset (map fst (filter (\<lambda>(t, c). t_user_id t = uid) (joined d)))"
    by (simp add: rows_def mset_order_by)
  also have "map fst (filter (\<lambda>(t, c). t_user_id t = uid) (joined d))
        = filter (\<lambda>t. t_user_id t = uid) (map fst (joined d))"
    by (simp add: filter_map o_def case_prod_unfold)
  finally have m: "mset (map fst rows) = mset (filter (\<lambda>t. t_user_id t = uid) (transactions d))"
    by (simp add: fst_joined [OF assms(5,6)])
  have t: "truthy (Some p)" "truthy (Some n)"
    using assms(3,4) by (simp_all add: truthy_def)
  have neg: "\<not> (n < 0 \<or> (p - 1) * n < 0)"
    using assms(3,4) by (simp add: not_less)
  have g: "getTransactions d uid (Some qpage) (Some qsize)
               = Json 200 (map formatTransactionResponse
                   (take (nat n) (drop (nat ((p - 1) * n)) rows)))"
    using t neg by (simp add: getTransactions_def assms(1,2) rows_def Let_def)
  have nq: "getTransactions d uid q q' = Json 200 (map formatTransactionResponse rows)"
       "getTransactions d uid q' q = Json 200 (map formatTransactionResponse rows)"
    if "Option.bind q parseInt \<in> {None, Some 0}" for q q'
    using that by (auto simp: getTransactions_def truthy_def rows_def Let_def)
  have i: "take (nat n) (drop (nat ((p - 1) * n)) rows) ! i
             = rows ! (nat (p - 1) * nat n + i)"
    if "i < length (take (nat n) (drop (nat ((p - 1) * n)) rows))" for i
  proof -
    define k where "k = nat (p - 1) * nat n"
    from that have "i < length rows - k" by (simp add: off k_def)
    then have "k \<le> length rows" by arith
    then have "drop k rows ! i = rows ! (k + i)" by (rule nth_drop)
    with that show ?thesis by (simp add: off k_def)
  qed
  have l: "length (take (nat n) (drop (nat ((p - 1) * n)) rows))
               = min (nat n) (length rows - nat (p - 1) * nat n)"
    by (simp add: off min.commute)
  show ?thesis
    using s m g nq i l by (intro exI [where x = rows]) blast
qed


lemmas list_eval = getTransactions_def truthy_def joined_def order_by_def newest_first_def
  date_lt_def formatTransactionResponse_def Let_def

theorem list_pagination_witness:
  "getTransactions ledger 1 (Some ''2'') (Some ''1'')
     = Json 200 [formatTransactionResponse (novel, books)]
   \<and> getTransactions ledger 1 None None
     = Json 200 (map formatTransactionResponse [(shoes, shopping), (novel, books), (pay, salary)])"
proof -
  have a: "parseInt ''2'' = Some 2" "parseInt ''1'' = Some 1" by (simp_all add: num_defs)
  have b: "(1::int) \<le> 2" "(1::int) \<le> 1" by simp_all
  have c: "distinct (map c_id (categories ledger))" by (simp add: ledger_defs)
  have e: "list_all (\<lambda>t. t_category_id t \<in> c_id ` set (categories ledger)) (transactions ledger)"
    by (simp add: ledger_defs)
  from list_pagination [OF a b c e, of 1]
  show ?thesis
    by (simp add: list_eval ledger_defs num_defs)
qed

text \<open>
  C6 as stated fails for a size of 0: \<^verbatim>\<open>page && size\<close> is false, and the route
  returns every row instead of the empty range of ranks 1 to 0.
\<close>

theorem size_zero_lists_everything:
  "parseInt ''1'' = Some 1 \<and> parseInt ''0'' = Some 0
   \<and> getTransactions ledger 1 (Some ''1'') (Some ''0'')
     = Json 200 (map formatTransactionResponse [(shoes, shopping), (novel, books), (pay, salary)])"
  by (simp add: list_eval ledger_defs num_defs)

subsection \<open>Failed logins\<close>

text \<open>
  With a password that is a string, the two failures get the same response: status 401
  with the message \<^verbatim>\<open>Invalid username or password!\<close>, for a username no user has
  and for a user whose stored hash the password does not match.
\<close>

lemma login_string_failures:
  assumes "loginValidation b1" and "loginValidation b2"
      and "list_all (\<lambda>u. Some (u_username u) \<noteq> l_username b1) (users d1)"
      and "u \<in> set (users d2)" and "Some (u_username u) = l_username b2"
      and "distinct (map u_username (users d2))"
      and "l_password b2 = Some (JString p2)"
      and "\<not> bcrypt_compare K p2 (u_password u)"
  shows "login K d1 b1 = Error 401 ''Invalid username or password!''
       \<and> login K d2 b2 = Error 401 ''Invalid username or password!''"
proof -
  obtain n1 p1 where b1: "l_username b1 = Some n1" "l_password b1 = Some p1"
    using assms(1) by (cases "l_username b1"; cases "l_password b1")
      (auto simp: loginValidation_def str_def text_of_def)
  have none: "filter (\<lambda>u. u_username u = n1) (users d1) = []"
    using assms(3) b1 by (auto simp: list_all_iff filter_empty_conv)
  have one: "filter (\<lambda>x. u_username x = u_username u) (users d2) = [u]"
    using assms(6,4) by (rule filter_key_distinct)
  have l1: "login K d1 b1 = Error 401 ''Invalid username or password!''"
    using assms(1) b1 none by (simp add: login_def)
  have l2: "login K d2 b2 = Error 401 ''Invalid username or password!''"
    using assms(2,7,8) one assms(5) [symmetric] by (simp add: login_def)
  show ?thesis by (simp add: l1 l2)
qed

text \<open>
  With a password that is not a string, a login for an existing user is answered with
  status 500, whatever the password says, and a login for a username no user has with
  status 401.
\<close>

lemma login_other_password:
  assumes "l_username b = Some name" and "l_password b = Some (JOther p)" and "p \<noteq> []"
      and "name \<noteq> []"
  shows "login K d b
         = (if list_ex (\<lambda>u. u_username u = name) (users d)
            then Error 500 ''Internal server error''
            else Error 401 ''Invalid username or password!'')"
proof -
  have v: "loginValidation b"
    using assms by (simp add: loginValidation_def str_def text_of_def)
  show ?thesis
  proof (cases "filter (\<lambda>u. u_username u = name) (users d)")
    case Nil
    then have "\<not> list_ex (\<lambda>u. u_username u = name) (users d)"
      by (simp add: list_ex_iff filter_empty_conv)
    then show ?thesis using v assms(1,2) Nil by (simp add: login_def)
  next
    case (Cons u us)
    then have "u \<in> set (filter (\<lambda>u. u_username u = name) (users d))" by simp
    then have "list_ex (\<lambda>u. u_username u = name) (users d)"
      by (auto simp: list_ex_iff)
    then show ?thesis using v assms(1,2) Cons by (simp add: login_def)
  qed
qed

text \<open>
  C5. The claim is that a failed login gets the same response whether the username is
  unknown or the password is wrong. The route validates only that the password is not
  empty and hands it to \<^verbatim>\<open>bcrypt.compare\<close> as it is. A password that is the JSON
  number 123 passes validation; for the existing user \<^verbatim>\<open>alice\<close> the comparison
  throws and the route answers with status 500, for the unknown user \<^verbatim>\<open>carol\<close> it
  answers with status 401 before it compares anything. The two responses tell whether
  the user exists. With the string \<^verbatim>\<open>wrong\<close> as password both get status 401.
\<close>

theorem login_reveals_user:
  "loginValidation \<lparr>l_username = Some ''alice'', l_password = Some (JOther ''123'')\<rparr>
   \<and> loginValidation \<lparr>l_username = Some ''carol'', l_password = Some (JOther ''123'')\<rparr>
   \<and> login toy ledger \<lparr>l_username = Some ''alice'', l_password = Some (JOther ''123'')\<rparr>
     = Error 500 ''Internal server error''
   \<and> login toy ledger \<lparr>l_username = Some ''carol'', l_password = Some (JOther ''123'')\<rparr>
     = Error 401 ''Invalid username or password!''
   \<and> login toy ledger \<lparr>l_username = Some ''alice'', l_password = Some (JString ''wrong'')\<rparr>
     = Error 401 ''Invalid username or password!''
   \<and> login toy ledger \<lparr>l_username = Some ''carol'', l_password = Some (JString ''wrong'')\<rparr>
     = Error 401 ''Invalid username or password!''"
  by (simp add: login_def loginValidation_def str_def text_of_def toy_def ledger_defs)

subsection \<open>Connections\<close>

lemma gate_leaks_on_query_failure:
  assumes "bearer_token h = Some token" and "jwt_verify K token = Inr i"
      and "held p < connectionLimit"
  shows "authenticateToken K p True d h
         = Some (Reject 500 ''Internal server error'', p\<lparr>held := held p + 1\<rparr>)"
  using assms by (simp add: authenticateToken_def getConnection_def)

lemma gate_releases_otherwise:
  assumes "authenticateToken K p False d h = Some (g, p')"
  shows "held p' = held p"
  using assms
  by (auto simp: authenticateToken_def getConnection_def release_def Let_def
      split: option.splits sum.splits list.splits if_splits)

lemma date_range_releases:
  assumes "getDateRange P p f d uid a b = Some (r, p')"
  shows "held p' = held p"
  using assms
  by (auto simp: getDateRange_def getConnection_def release_def split: option.splits if_splits)

text \<open>
  C9. The claim is that every exit path releases the connection it took. The route
  handlers do (\<open>date_range_releases\<close>), and so does the gate as long as its query
  succeeds (\<open>gate_releases_otherwise\<close>). When the gate's query throws, the gate
  answers with status 500 and keeps the connection: evaluated on a pool with nothing
  held, one such request leaves one connection held; and a pool with ten connections
  held never answers the next request.
\<close>

theorem gate_leaks_connection:
  "authenticateToken toy \<lparr>held = 0\<rparr> True ledger (Some ''Bearer token-1'')
     = Some (Reject 500 ''Internal server error'', \<lparr>held = 1\<rparr>)
   \<and> authenticateToken toy \<lparr>held = 0\<rparr> False ledger (Some ''Bearer token-1'')
     = Some (Next \<lparr>au_id = 1, au_username = ''alice'', au_email = ''alice@example.org'',
                    au_full_name = ''Alice A''\<rparr>, \<lparr>held = 0\<rparr>)
   \<and> authenticateToken toy \<lparr>held = 10\<rparr> False ledger (Some ''Bearer token-1'') = None"
  by (simp add: authenticateToken_def bearer_token_def toy_def token_id_def getConnection_def
      connectionLimit_def release_def ledger_defs)


subsection \<open>Every route keeps the constraints of the schema\<close>

text \<open>
  The theorems above assume distinct ids, ids below the counter, or existing
  categories. These hold in the example store and are kept by every route that changes
  the store, so they hold in every store the routes can produce from one where they hold.
\<close>

lemma store_ok_ledger: "store_ok ledger"
  by (simp add: store_ok_def ledger_defs)

lemma create_category_ok:
  assumes "store_ok d"
  shows "store_ok (snd (createCategory now d uid b))"
  using assms
  by (auto simp: createCategory_def store_ok_def Let_def list_all_iff
      split: option.splits prod.splits list.splits)

lemma map_keeps_keys:
  assumes "\<And>x. f (g x) = f x"
  shows "map f (map (\<lambda>x. if p x then g x else x) xs) = map f xs"
  using assms by (induction xs) auto

lemma store_ok_map_categories:
  assumes "store_ok d" and "\<And>c. c_id (g c) = c_id c"
      and "\<And>c. c_user_id (g c) = c_user_id c" and "\<And>c. c_is_default (g c) = c_is_default c"
  shows "store_ok (d\<lparr>categories := map (\<lambda>c. if p c then g c else c) (categories d)\<rparr>)"
proof -
  let ?cs = "map (\<lambda>c. if p c then g c else c) (categories d)"
  have ids: "map c_id ?cs = map c_id (categories d)"
    using assms(2) by (rule map_keeps_keys)
  then have img: "c_id ` set ?cs = c_id ` set (categories d)"
    by (metis list.set_map)
  have "distinct (map c_id ?cs)" using assms(1) by (simp only: ids store_ok_def)
  moreover have "list_all (\<lambda>c. c_id c < next_category_id d) ?cs"
    using assms(1,2) by (auto simp: store_ok_def list_all_iff)
  moreover have "list_all (\<lambda>c. c_user_id c = None \<or> \<not> c_is_default c) ?cs"
    using assms(1,3,4) by (auto simp: store_ok_def list_all_iff)
  moreover have "list_all (\<lambda>t. t_category_id t \<in> c_id ` set ?cs) (transactions d)"
    using assms(1) by (simp only: img store_ok_def)
  ultimately show ?thesis using assms(1) by (simp add: store_ok_def)
qed

lemma update_category_ok:
  assumes "store_ok d"
  shows "store_ok (snd (updateCategory now d uid idp b))"
  by (auto simp: updateCategory_def Let_def assms store_ok_map_categories
      split: option.splits prod.splits list.splits)

lemma delete_category_ok:
  assumes "store_ok d"
  shows "store_ok (snd (deleteCategory d uid idp))"
proof -
  have keep: "t_category_id t \<in> c_id ` {c \<in> set (categories d). \<not> sql_eq (c_id c) idp}"
    if "filter (\<lambda>t. sql_eq (t_category_id t) idp) (transactions d) = []"
      and "t \<in> set (transactions d)" for t
  proof -
    from assms that(2) obtain c where c: "c \<in> set (categories d)" "t_category_id t = c_id c"
      by (auto simp: store_ok_def list_all_iff)
    from that have "\<not> sql_eq (t_category_id t) idp" by (auto simp: filter_empty_conv)
    with c show ?thesis by auto
  qed
  show ?thesis
    using assms keep
    by (auto simp: deleteCategory_def store_ok_def list_all_iff distinct_map_filter
        split: list.splits)
qed

lemma bound_category:
  assumes "bound_values P b = Some (a, ds, dt, k, cid')" and "tb_categoryId b = Some cid"
      and "accessible d uid cid \<noteq> []"
  shows "cid' \<in> c_id ` set (categories d)"
proof -
  from assms(3) obtain c where c: "c \<in> set (categories d)" "sql_eq (c_id c) cid"
    by (auto simp: accessible_def filter_empty_conv)
  from assms(1,2) have "cid' = sql_bigint cid"
    by (auto simp: bound_values_def split: Option.bind_splits)
  with c show ?thesis by (auto simp: sql_bigint_of_id)
qed

lemma create_transaction_state:
  "snd (createTransaction P now d uid b) = d
   \<or> (\<exists>t. t_id t = next_transaction_id d \<and> t_category_id t \<in> c_id ` set (categories d)
          \<and> snd (createTransaction P now d uid b)
              = d\<lparr>transactions := transactions d @ [t],
                   next_transaction_id := next_transaction_id d + 1\<rparr>)"
proof (cases "snd (createTransaction P now d uid b) = d")
  case True
  then show ?thesis by simp
next
  case False
  then obtain cid a ds dt k cid' where
    h: "tb_categoryId b = Some cid" "accessible d uid cid \<noteq> []"
       "bound_values P b = Some (a, ds, dt, k, cid')"
    by (auto simp: createTransaction_def split: option.splits if_splits)
  let ?t = "\<lparr>t_id = next_transaction_id d, t_amount = a, t_description = ds,
      t_transaction_date = dt, t_type = k, t_category_id = cid', t_user_id = uid,
      t_notes = or_null (tb_notes b), t_created_at = now, t_updated_at = now\<rparr>"
  have "snd (createTransaction P now d uid b)
        = d\<lparr>transactions := transactions d @ [?t],
             next_transaction_id := next_transaction_id d + 1\<rparr>"
    using h False by (auto simp: createTransaction_def Let_def split: list.splits if_splits)
  moreover have "t_category_id ?t \<in> c_id ` set (categories d)"
    using bound_category [OF h(3,1,2)] by simp
  ultimately show ?thesis by (intro disjI2 exI [where x = ?t]) simp
qed

lemma store_ok_insert_transaction:
  assumes "store_ok d" and "t_id t = next_transaction_id d"
      and "t_category_id t \<in> c_id ` set (categories d)"
  shows "store_ok (d\<lparr>transactions := transactions d @ [t],
                     next_transaction_id := next_transaction_id d + 1\<rparr>)"
proof -
  have old: "list_all (\<lambda>x. t_id x < next_transaction_id d) (transactions d)"
    using assms(1) by (simp add: store_ok_def)
  then have "t_id t \<notin> t_id ` set (transactions d)"
    using assms(2) by (auto simp: list_all_iff)
  moreover have "list_all (\<lambda>x. t_id x < next_transaction_id d + 1) (transactions d)"
    using old by (auto simp: list_all_iff)
  ultimately show ?thesis using assms by (simp add: store_ok_def)
qed

lemma create_transaction_ok:
  assumes "store_ok d"
  shows "store_ok (snd (createTransaction P now d uid b))"
  using create_transaction_state [of P now d uid b]
proof (elim disjE exE conjE)
  assume "snd (createTransaction P now d uid b) = d"
  then show ?thesis using assms by simp
next
  fix t
  assume "t_id t = next_transaction_id d" "t_category_id t \<in> c_id ` set (categories d)"
    and "snd (createTransaction P now d uid b)
         = d\<lparr>transactions := transactions d @ [t],
              next_transaction_id := next_transaction_id d + 1\<rparr>"
  then show ?thesis using store_ok_insert_transaction [OF assms] by simp
qed

lemma update_transaction_state:
  "snd (updateTransaction P now d uid idp b) = d
   \<or> (\<exists>p g. (\<forall>t. t_id (g t) = t_id t \<and> t_category_id (g t) \<in> c_id ` set (categories d))
          \<and> snd (updateTransaction P now d uid idp b)
              = d\<lparr>transactions := map (\<lambda>t. if p t then g t else t) (transactions d)\<rparr>)"
proof (cases "snd (updateTransaction P now d uid idp b) = d")
  case True
  then show ?thesis by simp
next
  case False
  then obtain cid a ds dt k cid' where
    h: "tb_categoryId b = Some cid" "accessible d uid cid \<noteq> []"
       "bound_values P b = Some (a, ds, dt, k, cid')"
    by (auto simp: updateTransaction_def split: option.splits if_splits)
  let ?g = "\<lambda>t. t\<lparr>t_amount := a, t_description := ds, t_transaction_date := dt, t_type := k,
      t_category_id := cid', t_notes := or_null (tb_notes b), t_updated_at := now\<rparr>"
  let ?p = "\<lambda>t. sql_eq (t_id t) idp \<and> t_user_id t = uid"
  have "snd (updateTransaction P now d uid idp b)
        = d\<lparr>transactions := map (\<lambda>t. if ?p t then ?g t else t) (transactions d)\<rparr>"
    using h False by (auto simp: updateTransaction_def Let_def split: list.splits if_splits)
  moreover have "\<forall>t. t_id (?g t) = t_id t \<and> t_category_id (?g t) \<in> c_id ` set (categories d)"
    using bound_category [OF h(3,1,2)] by simp
  ultimately show ?thesis by (intro disjI2 exI [where x = ?p] exI [where x = ?g]) simp
qed

lemma store_ok_map_transactions:
  assumes "store_ok d"
      and "\<forall>t. t_id (g t) = t_id t \<and> t_category_id (g t) \<in> c_id ` set (categories d)"
  shows "store_ok (d\<lparr>transactions := map (\<lambda>t. if p t then g t else t) (transactions d)\<rparr>)"
proof -
  let ?ts = "map (\<lambda>t. if p t then g t else t) (transactions d)"
  have ids: "map t_id ?ts = map t_id (transactions d)"
    using assms(2) by (intro map_keeps_keys) simp
  have "distinct (map t_id ?ts)" using assms(1) by (simp only: ids store_ok_def)
  moreover have "list_all (\<lambda>t. t_id t < next_transaction_id d) ?ts"
    using assms by (auto simp: store_ok_def list_all_iff)
  moreover have "list_all (\<lambda>t. t_category_id t \<in> c_id ` set (categories d)) ?ts"
    using assms by (auto simp: store_ok_def list_all_iff)
  ultimately show ?thesis using assms(1) by (simp add: store_ok_def)
qed

lemma update_transaction_ok:
  assumes "store_ok d"
  shows "store_ok (snd (updateTransaction P now d uid idp b))"
  using update_transaction_state [of P now d uid idp b]
proof (elim disjE exE conjE)
  assume "snd (updateTransaction P now d uid idp b) = d"
  then show ?thesis using assms by simp
next
  fix p g
  assume "\<forall>t. t_id (g t) = t_id t \<and> t_category_id (g t) \<in> c_id ` set (categories d)"
    and "snd (updateTransaction P now d uid idp b)
         = d\<lparr>transactions := map (\<lambda>t. if p t then g t else t) (transactions d)\<rparr>"
  then show ?thesis using store_ok_map_transactions [OF assms] by simp
qed

lemma delete_transaction_ok:
  assumes "store_ok d"
  shows "store_ok (snd (deleteTransaction d uid idp))"
  using assms
  by (auto simp: deleteTransaction_def store_ok_def Let_def list_all_iff distinct_map_filter)


end
